theory Spec2Isabelle
  imports Main
begin

section \<open>The advertisement service of \<^verbatim>\<open>server.py\<close>\<close>

text \<open>
  \<^verbatim>\<open>server.py\<close> is an aiohttp application with two class-based views, \<^verbatim>\<open>UserView\<close> and
  \<^verbatim>\<open>AdvView\<close>, over two SQLAlchemy tables. Each handler is embedded as a function that
  takes the request and the database and returns what the handler returns or raises,
  together with the database after the request.

  Conventions of the embedding:
  \<^item> a Python \<^verbatim>\<open>str\<close> is a \<open>string\<close>; one \<open>char\<close> stands for one character;
  \<^item> a decoded JSON document is a value of \<open>json\<close>; JSON numbers are integers; a JSON
    object is the list of its items and a key is looked up with \<open>map_of\<close>;
  \<^item> an exception is a value of \<open>exn\<close>, and a handler returns \<open>exn + handler_return\<close>;
  \<^item> an \<^verbatim>\<open>Integer\<close> column holds an \<open>int\<close> of the 32-bit range; a \<^verbatim>\<open>DateTime\<close> is
    held as its \<^verbatim>\<open>isoformat()\<close> text.

  A request reaches a handler with its body already decoded: what \<^verbatim>\<open>request.json()\<close>
  does with a body that is not JSON is outside the embedding.
\<close>

subsection \<open>JSON values, exceptions and what a handler returns\<close>

datatype json =
    JNull
  | JBool bool
  | JInt int
  | JStr string
  | JArr "json list"
  | JObj "(string \<times> json) list"

text \<open>
  \<^verbatim>\<open>ApiError\<close> derives from \<^verbatim>\<open>web.HTTPException\<close>: raising it ends the request with the
  status code of the subclass and the JSON text built in \<^verbatim>\<open>__init__\<close>. The other
  constructors are the exceptions of the libraries that no handler catches.
\<close>

datatype exn =
    HTTPException nat json
  | ValidationError
  | TypeError
  | ValueError
  | KeyError
  | IntegrityError
  | DBAPIError

definition ApiError :: "nat \<Rightarrow> json \<Rightarrow> exn" where
  "ApiError status_code error_message =
     HTTPException status_code
       (JObj [(''status'', JStr ''error''), (''description'', error_message)])"

definition NotFound :: "json \<Rightarrow> exn" where
  "NotFound error_message = ApiError 404 error_message"

definition BadRequest :: "json \<Rightarrow> exn" where
  "BadRequest error_message = ApiError 400 error_message"

text \<open>
  A handler ends with \<^verbatim>\<open>return web.json_response(data)\<close>, a response object whose status
  defaults to 200, or, in the two \<^verbatim>\<open>post\<close> methods, with \<^verbatim>\<open>return {'id': ...}\<close>, a
  plain dictionary.
\<close>

datatype handler_return =
    Response nat json
  | Dict json

definition json_response :: "json \<Rightarrow> handler_return" where
  "json_response data = Response 200 data"

text \<open>
  The status the client sees. aiohttp answers an \<^verbatim>\<open>HTTPException\<close> with its own status
  and any other exception with 500; a return value that is not a response object is
  refused by the server, which answers 500 as well.
\<close>

fun http_status :: "exn + handler_return \<Rightarrow> nat option" where
  "http_status (Inl (HTTPException status_code body)) = Some status_code"
| "http_status (Inl e) = Some 500"
| "http_status (Inr (Response status_code body)) = Some status_code"
| "http_status (Inr (Dict d)) = Some 500"

fun http_body :: "exn + handler_return \<Rightarrow> json option" where
  "http_body (Inl (HTTPException status_code body)) = Some body"
| "http_body (Inl e) = None"
| "http_body (Inr (Response status_code body)) = Some body"
| "http_body (Inr (Dict d)) = None"

subsection \<open>The environment of the program\<close>

text \<open>
  Two things the handlers call are libraries outside the repository and are taken as
  parameters:
  \<^item> the pydantic field validators for \<^verbatim>\<open>str\<close> and \<^verbatim>\<open>int\<close> (which values they accept
    or coerce differs between pydantic releases): \<open>None\<close> is a validation error;
  \<^item> the interpreter's limit on the number of digits \<^verbatim>\<open>int()\<close> converts
    (\<^verbatim>\<open>sys.int_info.default_max_str_digits\<close>, 4300 since CPython 3.11 and the security
    releases 3.7.14, 3.8.14, 3.9.14 and 3.10.7; 0 switches the limit off, and older
    interpreters have none).
\<close>

record env =
  str_validator :: "json \<Rightarrow> string option"
  int_validator :: "json \<Rightarrow> int option"
  int_max_str_digits :: nat

fun strict_str :: "json \<Rightarrow> string option" where
  "strict_str (JStr s) = Some s"
| "strict_str v = None"

fun strict_int :: "json \<Rightarrow> int option" where
  "strict_int (JInt n) = Some n"
| "strict_int v = None"

definition default_env :: env where
  "default_env =
     \<lparr>str_validator = strict_str, int_validator = strict_int, int_max_str_digits = 4300\<rparr>"

subsection \<open>\<^verbatim>\<open>int()\<close> of a string\<close>

text \<open>
  \<^verbatim>\<open>int(s)\<close> for a \<^verbatim>\<open>str\<close> in base 10: surrounding whitespace is stripped (the six
  ASCII whitespace characters, and of the others those Unicode counts as whitespace:
  U+0085 and U+00A0), one sign is allowed, then decimal digits follow in which single
  underscores may separate digits. More digits than the limit, or anything else, raises
  \<^verbatim>\<open>ValueError\<close>.
\<close>

definition is_digit :: "char \<Rightarrow> bool" where
  "is_digit c = (48 \<le> (of_char c :: nat) \<and> (of_char c :: nat) \<le> 57)"

definition is_space :: "char \<Rightarrow> bool" where
  "is_space c = ((of_char c :: nat) \<in> {9, 10, 11, 12, 13, 32, 133, 160})"

definition digit_val :: "char \<Rightarrow> int" where
  "digit_val c = int (of_char c) - 48"

definition strip :: "string \<Rightarrow> string" where
  "strip s = rev (dropWhile is_space (rev (dropWhile is_space s)))"

fun grouped_digits :: "bool \<Rightarrow> string \<Rightarrow> bool" where
  "grouped_digits after_digit [] = after_digit"
| "grouped_digits after_digit (c # cs) =
     (if is_digit c then grouped_digits True cs
      else if c = CHR ''_'' \<and> after_digit then grouped_digits False cs
      else False)"

fun digits_value :: "int \<Rightarrow> string \<Rightarrow> int" where
  "digits_value acc [] = acc"
| "digits_value acc (c # cs) =
     (if is_digit c then digits_value (10 * acc + digit_val c) cs else digits_value acc cs)"

definition unsigned_int :: "nat \<Rightarrow> string \<Rightarrow> int option" where
  "unsigned_int max_digits s =
     (if \<not> grouped_digits False s then None
      else if 0 < max_digits \<and> max_digits < length (filter is_digit s) then None
      else Some (digits_value 0 s))"

definition py_int :: "nat \<Rightarrow> string \<Rightarrow> int option" where
  "py_int max_digits s =
     (case strip s of
        [] \<Rightarrow> None
      | c # cs \<Rightarrow>
          if c = CHR ''-'' then map_option uminus (unsigned_int max_digits cs)
          else if c = CHR ''+'' then unsigned_int max_digits cs
          else unsigned_int max_digits (c # cs))"

subsection \<open>The routes\<close>

text \<open>
  \<^verbatim>\<open>app.router.add_route(method, path, view)\<close>, eight times. A path is either plain or
  ends in one variable \<^verbatim>\<open>{name:\d+}\<close>: \<open>Dynamic prefix name\<close> matches the prefix followed
  by one or more decimal digits up to the end of the path, and binds them to the name.
\<close>

datatype http_method = GET | POST | DELETE | PATCH

datatype view = AdvView | UserView

datatype resource = Plain string | Dynamic string string

definition routes :: "(http_method \<times> resource \<times> view) list" where
  "routes =
     [(POST, Plain ''/advs/'', AdvView),
      (GET, Dynamic ''/advs/'' ''adv_id'', AdvView),
      (DELETE, Dynamic ''/advs/'' ''adv_id'', AdvView),
      (PATCH, Dynamic ''/advs/'' ''adv_id'', AdvView),
      (POST, Plain ''/users/'', UserView),
      (GET, Dynamic ''/users/'' ''user_id'', UserView),
      (DELETE, Dynamic ''/users/'' ''user_id'', UserView),
      (PATCH, Dynamic ''/users/'' ''user_id'', UserView)]"

definition digits1 :: "string \<Rightarrow> bool" where
  "digits1 s = (s \<noteq> [] \<and> list_all is_digit s)"

fun match_resource :: "resource \<Rightarrow> string \<Rightarrow> (string \<times> string) list option" where
  "match_resource (Plain p) path = (if path = p then Some [] else None)"
| "match_resource (Dynamic prefix name) path =
     (if take (length prefix) path = prefix \<and> digits1 (drop (length prefix) path)
      then Some [(name, drop (length prefix) path)] else None)"

fun resolve_in ::
  "(http_method \<times> resource \<times> view) list \<Rightarrow> http_method \<Rightarrow> string \<Rightarrow>
   (view \<times> (string \<times> string) list) option" where
  "resolve_in [] m path = None"
| "resolve_in ((m', r, v) # rs) m path =
     (if m' = m then
        (case match_resource r path of
           Some match_info \<Rightarrow> Some (v, match_info)
         | None \<Rightarrow> resolve_in rs m path)
      else resolve_in rs m path)"

definition resolve :: "http_method \<Rightarrow> string \<Rightarrow> (view \<times> (string \<times> string) list) option" where
  "resolve m path = resolve_in routes m path"

subsection \<open>The tables\<close>

text \<open>
  \<^verbatim>\<open>class User(Base)\<close> and \<^verbatim>\<open>class Advertisement(Base)\<close>. The fields carry the prefix of
  their table (\<open>id\<close> is a constant of HOL). \<^verbatim>\<open>user_id\<close> is a nullable column.
\<close>

record user =
  u_id :: int
  u_username :: string
  u_password :: string

record advertisement =
  a_id :: int
  a_title :: string
  a_description :: string
  a_creation_time :: string
  a_user_id :: "int option"

text \<open>
  The database: the rows of both tables in insertion order, and for each
  \<^verbatim>\<open>Integer\<close> primary key the sequence the storage engine draws the next identity from.
\<close>

record db =
  users :: "user list"
  advertisements :: "advertisement list"
  users_id_seq :: int
  advertisements_id_seq :: int

definition empty_db :: db where
  "empty_db = \<lparr>users = [], advertisements = [], users_id_seq = 1, advertisements_id_seq = 1\<rparr>"

subsection \<open>What the storage engine does at commit\<close>

text \<open>
  The engine is PostgreSQL behind the asyncpg driver (\<^verbatim>\<open>PG_DSN\<close>). What it accepts for
  the column types the two classes declare:
  \<^item> \<^verbatim>\<open>Integer\<close> is a 32-bit integer; the driver refuses any other value when it binds
    the parameters of a statement;
  \<^item> a text value must not contain the character U+0000; the driver refuses it when it
    binds the parameters;
  \<^item> \<^verbatim>\<open>String(60)\<close> holds at most 60 characters: a longer value is refused, unless the
    characters beyond the 60th are all spaces, and then it is stored cut to 60.

  Each of these refusals reaches the handler as a plain \<^verbatim>\<open>DBAPIError\<close>, and leaves the
  database as it was.
\<close>

definition int32 :: "int \<Rightarrow> bool" where
  "int32 k = (- 2147483648 \<le> k \<and> k \<le> 2147483647)"

definition no_nul :: "string \<Rightarrow> bool" where
  "no_nul s = list_all (\<lambda>c. c \<noteq> CHR 0x00) s"

definition varchar :: "nat \<Rightarrow> string \<Rightarrow> string option" where
  "varchar n s =
     (if length s \<le> n then Some s
      else if list_all (\<lambda>c. c = CHR '' '') (drop n s) then Some (take n s)
      else None)"

text \<open>
  The constraints are those the two classes declare: the primary keys, \<^verbatim>\<open>unique=True\<close>
  on \<^verbatim>\<open>username\<close>, and \<^verbatim>\<open>ForeignKey('users.id')\<close> on \<^verbatim>\<open>user_id\<close>. A violated key or
  reference is an \<^verbatim>\<open>IntegrityError\<close>: both tables stay as they were, and the identity
  drawn from the sequence is spent. The sequence of an \<^verbatim>\<open>Integer\<close> key ends with the
  range of the column: past it, the insert is refused with a \<^verbatim>\<open>DBAPIError\<close>.
\<close>

definition insert_user :: "string \<Rightarrow> string \<Rightarrow> db \<Rightarrow> (exn + int) \<times> db" where
  "insert_user username password d =
     (let new_id = users_id_seq d; d' = d\<lparr>users_id_seq := new_id + 1\<rparr>
      in if \<not> no_nul username \<or> \<not> no_nul password \<or> \<not> int32 new_id then (Inl DBAPIError, d)
         else case varchar 60 username of
           None \<Rightarrow> (Inl DBAPIError, d)
         | Some stored \<Rightarrow>
             if new_id \<in> set (map u_id (users d)) \<or> stored \<in> set (map u_username (users d))
             then (Inl IntegrityError, d')
             else (Inr new_id,
                   d'\<lparr>users := users d @
                      [\<lparr>u_id = new_id, u_username = stored, u_password = password\<rparr>]\<rparr>))"

definition insert_adv :: "string \<Rightarrow> string \<Rightarrow> string \<Rightarrow> int \<Rightarrow> db \<Rightarrow> (exn + int) \<times> db" where
  "insert_adv now title description user_id d =
     (let new_id = advertisements_id_seq d; d' = d\<lparr>advertisements_id_seq := new_id + 1\<rparr>
      in if \<not> no_nul title \<or> \<not> no_nul description \<or> \<not> int32 user_id \<or> \<not> int32 new_id
         then (Inl DBAPIError, d)
         else if new_id \<in> set (map a_id (advertisements d)) \<or> user_id \<notin> set (map u_id (users d))
         then (Inl IntegrityError, d')
         else (Inr new_id,
               d'\<lparr>advertisements := advertisements d @
                  [\<lparr>a_id = new_id, a_title = title, a_description = description,
                    a_creation_time = now, a_user_id = Some user_id\<rparr>]\<rparr>))"

text \<open>
  The commit of a modified object, \<open>old\<close> as it was loaded and \<open>new\<close> after the
  assignments: the \<^verbatim>\<open>UPDATE\<close> carries the columns whose value has changed, and no
  statement is sent when none has.
\<close>

definition update_user :: "user \<Rightarrow> user \<Rightarrow> db \<Rightarrow> exn + db" where
  "update_user old new d =
     (if new = old then Inr d
      else if (u_username new \<noteq> u_username old \<and> \<not> no_nul (u_username new)) \<or>
              (u_password new \<noteq> u_password old \<and> \<not> no_nul (u_password new))
      then Inl DBAPIError
      else if u_username new = u_username old
      then Inr (d\<lparr>users := map (\<lambda>u. if u_id u = u_id old then new else u) (users d)\<rparr>)
      else case varchar 60 (u_username new) of
        None \<Rightarrow> Inl DBAPIError
      | Some stored \<Rightarrow>
          if list_ex (\<lambda>u. u_id u \<noteq> u_id old \<and> u_username u = stored) (users d)
          then Inl IntegrityError
          else Inr (d\<lparr>users :=
                 map (\<lambda>u. if u_id u = u_id old then new\<lparr>u_username := stored\<rparr> else u) (users d)\<rparr>))"

definition update_adv :: "advertisement \<Rightarrow> advertisement \<Rightarrow> db \<Rightarrow> exn + db" where
  "update_adv old new d =
     (if new = old then Inr d
      else if (a_title new \<noteq> a_title old \<and> \<not> no_nul (a_title new)) \<or>
              (a_description new \<noteq> a_description old \<and> \<not> no_nul (a_description new))
      then Inl DBAPIError
      else Inr (d\<lparr>advertisements :=
             map (\<lambda>a. if a_id a = a_id old then new else a) (advertisements d)\<rparr>))"

text \<open>
  \<^verbatim>\<open>User.advertisements\<close> is a relationship without a delete cascade: when a user is
  deleted the unit of work first sets \<^verbatim>\<open>user_id\<close> of the user's advertisements to NULL.
\<close>

definition delete_user :: "user \<Rightarrow> db \<Rightarrow> db" where
  "delete_user user d =
     d\<lparr>users := filter (\<lambda>u. u_id u \<noteq> u_id user) (users d),
       advertisements :=
         map (\<lambda>a. if a_user_id a = Some (u_id user) then a\<lparr>a_user_id := None\<rparr> else a)
           (advertisements d)\<rparr>"

definition delete_adv :: "advertisement \<Rightarrow> db \<Rightarrow> db" where
  "delete_adv adv d = d\<lparr>advertisements := filter (\<lambda>a. a_id a \<noteq> a_id adv) (advertisements d)\<rparr>"

subsection \<open>Entity lookup\<close>

text \<open>
  \<^verbatim>\<open>session.get\<close> sends a query with the key as its parameter: a key outside the range
  of the column is refused before any row is looked at.
\<close>

definition get_user :: "int \<Rightarrow> db \<Rightarrow> exn + user" where
  "get_user user_id session =
     (if \<not> int32 user_id then Inl DBAPIError
      else case find (\<lambda>u. u_id u = user_id) (users session) of
        None \<Rightarrow> Inl (NotFound (JStr ''user not found''))
      | Some user \<Rightarrow> Inr user)"

definition get_adv :: "int \<Rightarrow> db \<Rightarrow> exn + advertisement" where
  "get_adv adv_id session =
     (if \<not> int32 adv_id then Inl DBAPIError
      else case find (\<lambda>a. a_id a = adv_id) (advertisements session) of
        None \<Rightarrow> Inl (NotFound (JStr ''advertisement not found''))
      | Some adv \<Rightarrow> Inr adv)"

subsection \<open>Validation models\<close>

text \<open>
  \<^verbatim>\<open>Model(**json_data)\<close>: unpacking anything but a dictionary is a \<^verbatim>\<open>TypeError\<close>; keys the
  model does not declare are ignored; a declared field goes through the validator of
  its type. A field of type \<^verbatim>\<open>Optional[...]\<close> may be missing or null, and is then
  \<^verbatim>\<open>None\<close>.
\<close>

definition required :: "(json \<Rightarrow> 'a option) \<Rightarrow> (string \<times> json) list \<Rightarrow> string \<Rightarrow> 'a option" where
  "required validator kwargs name =
     (case map_of kwargs name of None \<Rightarrow> None | Some v \<Rightarrow> validator v)"

definition optional :: "(json \<Rightarrow> 'a option) \<Rightarrow> (string \<times> json) list \<Rightarrow> string \<Rightarrow> 'a option option" where
  "optional validator kwargs name =
     (case map_of kwargs name of
        None \<Rightarrow> Some None
      | Some v \<Rightarrow> if v = JNull then Some None else map_option Some (validator v))"

record create_user =
  cu_username :: string
  cu_password :: string

record create_adv =
  ca_title :: string
  ca_description :: string
  ca_user_id :: int

fun CreateUserModel :: "env \<Rightarrow> json \<Rightarrow> exn + create_user" where
  "CreateUserModel E (JObj kwargs) =
     (case (required (str_validator E) kwargs ''username'',
            required (str_validator E) kwargs ''password'') of
        (Some u, Some p) \<Rightarrow> Inr \<lparr>cu_username = u, cu_password = p\<rparr>
      | _ \<Rightarrow> Inl ValidationError)"
| "CreateUserModel E v = Inl TypeError"

fun CreateAdvModel :: "env \<Rightarrow> json \<Rightarrow> exn + create_adv" where
  "CreateAdvModel E (JObj kwargs) =
     (case (required (str_validator E) kwargs ''title'',
            required (str_validator E) kwargs ''description'',
            required (int_validator E) kwargs ''user_id'') of
        (Some t, Some d, Some u) \<Rightarrow> Inr \<lparr>ca_title = t, ca_description = d, ca_user_id = u\<rparr>
      | _ \<Rightarrow> Inl ValidationError)"
| "CreateAdvModel E v = Inl TypeError"

text \<open>
  The patch models are only used through \<^verbatim>\<open>.dict(exclude_none=True)\<close>: the result is that
  dictionary, the fields that are not \<^verbatim>\<open>None\<close> in the order of their declaration.
\<close>

definition exclude_none :: "(string \<times> string option) list \<Rightarrow> (string \<times> string) list" where
  "exclude_none kvs =
     concat (map (\<lambda>(name, v). case v of None \<Rightarrow> [] | Some s \<Rightarrow> [(name, s)]) kvs)"

fun PatchUserModel :: "env \<Rightarrow> json \<Rightarrow> exn + (string \<times> string) list" where
  "PatchUserModel E (JObj kwargs) =
     (case (optional (str_validator E) kwargs ''username'',
            optional (str_validator E) kwargs ''password'') of
        (Some u, Some p) \<Rightarrow> Inr (exclude_none [(''username'', u), (''password'', p)])
      | _ \<Rightarrow> Inl ValidationError)"
| "PatchUserModel E v = Inl TypeError"

fun PatchAdvModel :: "env \<Rightarrow> json \<Rightarrow> exn + (string \<times> string) list" where
  "PatchAdvModel E (JObj kwargs) =
     (case (optional (str_validator E) kwargs ''title'',
            optional (str_validator E) kwargs ''description'') of
        (Some t, Some d) \<Rightarrow> Inr (exclude_none [(''title'', t), (''description'', d)])
      | _ \<Rightarrow> Inl ValidationError)"
| "PatchAdvModel E v = Inl TypeError"

subsection \<open>Request handlers\<close>

text \<open>
  What a handler reads of the request: \<^verbatim>\<open>self.request.match_info\<close> and the decoded body
  \<^verbatim>\<open>await self.request.json()\<close>.
\<close>

record request =
  match_info :: "(string \<times> string) list"
  json_body :: json

text \<open>\<^verbatim>\<open>int(self.request.match_info[name])\<close>\<close>

definition path_int :: "env \<Rightarrow> request \<Rightarrow> string \<Rightarrow> exn + int" where
  "path_int E req name =
     (case map_of (match_info req) name of
        None \<Rightarrow> Inl KeyError
      | Some segment \<Rightarrow>
          (case py_int (int_max_str_digits E) segment of
             None \<Rightarrow> Inl ValueError
           | Some n \<Rightarrow> Inr n))"

text \<open>
  \<^verbatim>\<open>setattr(entity, column, value)\<close> on a mapped object: a name that is not a column of
  the table changes nothing that is stored.
\<close>

definition user_setattr :: "user \<Rightarrow> string \<Rightarrow> string \<Rightarrow> user" where
  "user_setattr user column v =
     (if column = ''username'' then user\<lparr>u_username := v\<rparr>
      else if column = ''password'' then user\<lparr>u_password := v\<rparr>
      else user)"

definition adv_setattr :: "advertisement \<Rightarrow> string \<Rightarrow> string \<Rightarrow> advertisement" where
  "adv_setattr adv column v =
     (if column = ''title'' then adv\<lparr>a_title := v\<rparr>
      else if column = ''description'' then adv\<lparr>a_description := v\<rparr>
      else adv)"

type_synonym outcome = "(exn + handler_return) \<times> db"

definition UserView_get :: "env \<Rightarrow> request \<Rightarrow> db \<Rightarrow> outcome" where
  "UserView_get E req d =
     (case path_int E req ''user_id'' of
        Inl e \<Rightarrow> (Inl e, d)
      | Inr user_id \<Rightarrow>
          (case get_user user_id d of
             Inl e \<Rightarrow> (Inl e, d)
           | Inr user \<Rightarrow>
               (Inr (json_response
                  (JObj [(''id_user'', JInt (u_id user)), (''username'', JStr (u_username user))])),
                d)))"

definition UserView_post :: "env \<Rightarrow> request \<Rightarrow> db \<Rightarrow> outcome" where
  "UserView_post E req d =
     (case CreateUserModel E (json_body req) of
        Inl e \<Rightarrow> (Inl e, d)
      | Inr json_data \<Rightarrow>
          (case insert_user (cu_username json_data) (cu_password json_data) d of
             (Inl e, d') \<Rightarrow>
               if e = IntegrityError then (Inl (BadRequest (JStr ''user already exists'')), d')
               else (Inl e, d')
           | (Inr new_id, d') \<Rightarrow> (Inr (Dict (JObj [(''id'', JInt new_id)])), d')))"

definition UserView_delete :: "env \<Rightarrow> request \<Rightarrow> db \<Rightarrow> outcome" where
  "UserView_delete E req d =
     (case path_int E req ''user_id'' of
        Inl e \<Rightarrow> (Inl e, d)
      | Inr user_id \<Rightarrow>
          (case get_user user_id d of
             Inl e \<Rightarrow> (Inl e, d)
           | Inr user \<Rightarrow>
               (Inr (json_response (JObj [(''status'', JStr ''succes'')])), delete_user user d)))"

definition UserView_patch :: "env \<Rightarrow> request \<Rightarrow> db \<Rightarrow> outcome" where
  "UserView_patch E req d =
     (case path_int E req ''user_id'' of
        Inl e \<Rightarrow> (Inl e, d)
      | Inr user_id \<Rightarrow>
          (case PatchUserModel E (json_body req) of
             Inl e \<Rightarrow> (Inl e, d)
           | Inr json_data \<Rightarrow>
               (case get_user user_id d of
                  Inl e \<Rightarrow> (Inl e, d)
                | Inr user \<Rightarrow>
                    (case update_user user
                            (fold (\<lambda>(column, v) u. user_setattr u column v) json_data user) d of
                       Inl e \<Rightarrow> (Inl e, d)
                     | Inr d' \<Rightarrow>
                         (Inr (json_response (JObj [(''status'', JStr ''success'')])), d')))))"

text \<open>
  \<^verbatim>\<open>AdvView.post\<close> takes one more argument: the time the storage engine stamps the new
  row with (\<^verbatim>\<open>server_default=func.now()\<close>).
\<close>

definition AdvView_get :: "env \<Rightarrow> request \<Rightarrow> db \<Rightarrow> outcome" where
  "AdvView_get E req d =
     (case path_int E req ''adv_id'' of
        Inl e \<Rightarrow> (Inl e, d)
      | Inr adv_id \<Rightarrow>
          (case get_adv adv_id d of
             Inl e \<Rightarrow> (Inl e, d)
           | Inr adv \<Rightarrow>
               (Inr (json_response
                  (JObj [(''title'', JStr (a_title adv)),
                         (''description'', JStr (a_description adv)),
                         (''date'', JStr (a_creation_time adv)),
                         (''user_id'', case a_user_id adv of None \<Rightarrow> JNull | Some u \<Rightarrow> JInt u)])),
                d)))"

definition AdvView_post :: "env \<Rightarrow> string \<Rightarrow> request \<Rightarrow> db \<Rightarrow> outcome" where
  "AdvView_post E now req d =
     (case CreateAdvModel E (json_body req) of
        Inl e \<Rightarrow> (Inl e, d)
      | Inr json_data \<Rightarrow>
          (case insert_adv now (ca_title json_data) (ca_description json_data)
                  (ca_user_id json_data) d of
             (Inl e, d') \<Rightarrow>
               if e = IntegrityError
               then (Inl (BadRequest (JStr ''advertisement already exists'')), d')
               else (Inl e, d')
           | (Inr new_id, d') \<Rightarrow> (Inr (Dict (JObj [(''id'', JInt new_id)])), d')))"

definition AdvView_delete :: "env \<Rightarrow> request \<Rightarrow> db \<Rightarrow> outcome" where
  "AdvView_delete E req d =
     (case path_int E req ''adv_id'' of
        Inl e \<Rightarrow> (Inl e, d)
      | Inr adv_id \<Rightarrow>
          (case get_adv adv_id d of
             Inl e \<Rightarrow> (Inl e, d)
           | Inr adv \<Rightarrow>
               (Inr (json_response (JObj [(''status'', JStr ''succes'')])), delete_adv adv d)))"

definition AdvView_patch :: "env \<Rightarrow> request \<Rightarrow> db \<Rightarrow> outcome" where
  "AdvView_patch E req d =
     (case path_int E req ''adv_id'' of
        Inl e \<Rightarrow> (Inl e, d)
      | Inr adv_id \<Rightarrow>
          (case PatchAdvModel E (json_body req) of
             Inl e \<Rightarrow> (Inl e, d)
           | Inr json_data \<Rightarrow>
               (case get_adv adv_id d of
                  Inl e \<Rightarrow> (Inl e, d)
                | Inr adv \<Rightarrow>
                    (case update_adv adv
                            (fold (\<lambda>(column, v) a. adv_setattr a column v) json_data adv) d of
                       Inl e \<Rightarrow> (Inl e, d)
                     | Inr d' \<Rightarrow>
                         (Inr (json_response (JObj [(''status'', JStr ''success'')])), d')))))"

text \<open>
  \<^verbatim>\<open>web.View\<close> calls the method of the view named after the HTTP method. A list of
  requests is served one after the other; each comes with the time of its arrival.
\<close>

fun handle :: "env \<Rightarrow> string \<Rightarrow> view \<Rightarrow> http_method \<Rightarrow> request \<Rightarrow> db \<Rightarrow> outcome" where
  "handle E now UserView GET req d = UserView_get E req d"
| "handle E now UserView POST req d = UserView_post E req d"
| "handle E now UserView DELETE req d = UserView_delete E req d"
| "handle E now UserView PATCH req d = UserView_patch E req d"
| "handle E now AdvView GET req d = AdvView_get E req d"
| "handle E now AdvView POST req d = AdvView_post E now req d"
| "handle E now AdvView DELETE req d = AdvView_delete E req d"
| "handle E now AdvView PATCH req d = AdvView_patch E req d"

fun serve :: "env \<Rightarrow> (string \<times> view \<times> http_method \<times> request) list \<Rightarrow> db \<Rightarrow> db" where
  "serve E [] d = d"
| "serve E ((now, v, m, req) # rs) d = serve E rs (snd (handle E now v m req d))"

subsection \<open>Notions used to state the properties\<close>

text \<open>The name under which the views read the identity from \<^verbatim>\<open>match_info\<close>.\<close>

fun path_parameter :: "view \<Rightarrow> string" where
  "path_parameter UserView = ''user_id''"
| "path_parameter AdvView = ''adv_id''"

text \<open>
  What the storage engine maintains of the declared constraints: primary keys and
  usernames are unique, every identity in a table was drawn from the table's sequence
  and lies in the range of its column, a username has at most 60 characters, and no
  stored text contains U+0000.
\<close>

definition db_ok :: "db \<Rightarrow> bool" where
  "db_ok d =
     (distinct (map u_id (users d)) \<and> distinct (map u_username (users d)) \<and>
      list_all (\<lambda>u. int32 (u_id u) \<and> u_id u < users_id_seq d \<and> length (u_username u) \<le> 60 \<and>
                    no_nul (u_username u) \<and> no_nul (u_password u)) (users d) \<and>
      distinct (map a_id (advertisements d)) \<and>
      list_all (\<lambda>a. int32 (a_id a) \<and> a_id a < advertisements_id_seq d \<and>
                    no_nul (a_title a) \<and> no_nul (a_description a)) (advertisements d))"

text \<open>An identity that the sequence has passed and that is not in the table.\<close>

definition user_gone :: "int \<Rightarrow> db \<Rightarrow> bool" where
  "user_gone k d = (k < users_id_seq d \<and> k \<notin> set (map u_id (users d)))"

definition adv_gone :: "int \<Rightarrow> db \<Rightarrow> bool" where
  "adv_gone k d = (k < advertisements_id_seq d \<and> k \<notin> set (map a_id (advertisements d)))"

subsection \<open>Sample data\<close>

text \<open>A request, and a database with one user who owns one advertisement.\<close>

definition request_of :: "(string \<times> string) list \<Rightarrow> json \<Rightarrow> request" where
  "request_of params body = \<lparr>match_info = params, json_body = body\<rparr>"

definition alice :: user where
  "alice = \<lparr>u_id = 1, u_username = ''alice'', u_password = ''pw1''\<rparr>"

definition bike :: advertisement where
  "bike = \<lparr>a_id = 1, a_title = ''bike'', a_description = ''red'',
            a_creation_time = ''2023-01-01T00:00:00'', a_user_id = Some 1\<rparr>"

definition db_sample :: db where
  "db_sample = \<lparr>users = [alice], advertisements = [bike], users_id_seq = 2,
                 advertisements_id_seq = 2\<rparr>"

definition alice_payload :: json where
  "alice_payload = JObj [(''username'', JStr ''alice''), (''password'', JStr ''pw1'')]"

definition bike_payload :: json where
  "bike_payload = JObj [(''title'', JStr ''bike''), (''description'', JStr ''red''), (''user_id'', JInt 1)]"

text \<open>
  The database with every stored password blanked: what two databases that differ only in
  passwords have in common.
\<close>

definition without_passwords :: "db \<Rightarrow> db" where
  "without_passwords d = d\<lparr>users := map (\<lambda>u. u\<lparr>u_password := []\<rparr>) (users d)\<rparr>"

section \<open>Auxiliary facts\<close>

subsection \<open>\<^verbatim>\<open>int()\<close> on a run of digits\<close>


lemma is_digit_not_space: "is_digit c \<Longrightarrow> \<not> is_space c"
  by (auto simp: is_digit_def is_space_def)

lemma is_digit_not_sign: "is_digit c \<Longrightarrow> c \<noteq> CHR ''-'' \<and> c \<noteq> CHR ''+'' \<and> c \<noteq> CHR ''_''"
  by (auto simp: is_digit_def)

lemma dropWhile_digits: "list_all is_digit s \<Longrightarrow> dropWhile is_space s = s"
  by (cases s) (auto simp: is_digit_not_space)

lemma strip_digits: "list_all is_digit s \<Longrightarrow> strip s = s"
  by (simp add: strip_def dropWhile_digits list_all_iff)

lemma grouped_digits_all: "list_all is_digit s \<Longrightarrow> grouped_digits b s = (b \<or> s \<noteq> [])"
  by (induction s arbitrary: b) auto

lemma filter_digits: "list_all is_digit s \<Longrightarrow> filter is_digit s = s"
  by (induction s) auto

lemma digits_value_nonneg: "0 \<le> acc \<Longrightarrow> 0 \<le> digits_value acc s"
  by (induction s arbitrary: acc) (auto simp: is_digit_def digit_val_def)

lemma unsigned_int_digits:
  "digits1 s \<Longrightarrow> unsigned_int lim s =
     (if 0 < lim \<and> lim < length s then None else Some (digits_value 0 s))"
  by (simp add: unsigned_int_def digits1_def grouped_digits_all filter_digits)

lemma py_int_digits:
  "digits1 s \<Longrightarrow> py_int lim s =
     (if 0 < lim \<and> lim < length s then None else Some (digits_value 0 s))"
  unfolding py_int_def
  by (cases s) (auto simp: digits1_def strip_digits is_digit_not_sign unsigned_int_digits[unfolded digits1_def] simp del: digits_value.simps)


lemma resolve_dynamic:
  assumes "resolve m path = Some (v, mi)" and "m \<noteq> POST"
  shows "\<exists>seg. mi = [(path_parameter v, seg)] \<and> digits1 seg"
  using assms unfolding resolve_def routes_def
  by (cases m) (auto split: if_splits)

lemma path_int_digits:
  assumes "digits1 seg" and "int_max_str_digits E = 0 \<or> length seg \<le> int_max_str_digits E"
  shows "\<exists>n\<ge>0. path_int E \<lparr>match_info = [(name, seg)], json_body = b\<rparr> name = Inr n"
  using assms by (auto simp: path_int_def py_int_digits digits_value_nonneg)

subsection \<open>The constraints are maintained\<close>

lemma varchar_Some:
  assumes "varchar n s = Some t"
  shows "t = take n s" and "length t \<le> n" and "no_nul s \<Longrightarrow> no_nul t"
proof -
  show t: "t = take n s" using assms by (auto simp: varchar_def split: if_splits)
  show "length t \<le> n" unfolding t by simp
  show "no_nul t" if "no_nul s"
    using that unfolding t no_nul_def list_all_iff by (auto dest: in_set_takeD)
qed


lemma db_ok_empty: "db_ok empty_db"
  by (simp add: db_ok_def empty_db_def)

lemma insert_user_ok: "db_ok d \<Longrightarrow> db_ok (snd (insert_user un pw d))"
  by (auto simp: db_ok_def insert_user_def Let_def list_all_iff
      split: option.splits dest: varchar_Some(2,3))

lemma insert_adv_ok: "db_ok d \<Longrightarrow> db_ok (snd (insert_adv now t ds u d))"
  by (auto simp: db_ok_def insert_adv_def Let_def list_all_iff)

lemma find_Some_mem: "find P xs = Some x \<Longrightarrow> x \<in> set xs \<and> P x"
  by (induction xs) (auto split: if_splits)

lemma get_user_Inr:
  "get_user k d = Inr u \<Longrightarrow> u \<in> set (users d) \<and> u_id u = k \<and> int32 k"
  by (auto simp: get_user_def split: option.splits if_splits dest: find_Some_mem)

lemma get_adv_Inr:
  "get_adv k d = Inr a \<Longrightarrow> a \<in> set (advertisements d) \<and> a_id a = k \<and> int32 k"
  by (auto simp: get_adv_def split: option.splits if_splits dest: find_Some_mem)

lemma user_setattr_id: "u_id (user_setattr u c v) = u_id u"
  by (simp add: user_setattr_def)

lemma adv_setattr_id: "a_id (adv_setattr a c v) = a_id a"
  by (simp add: adv_setattr_def)

lemma fold_user_setattr_id:
  "u_id (fold (\<lambda>(column, v) u. user_setattr u column v) kvs u) = u_id u"
  by (induction kvs arbitrary: u) (auto simp: user_setattr_id)

lemma fold_adv_setattr_id:
  "a_id (fold (\<lambda>(column, v) a. adv_setattr a column v) kvs a) = a_id a"
  by (induction kvs arbitrary: a) (auto simp: adv_setattr_id)

lemma map_replace_ids: "f y = k \<Longrightarrow> map f (map (\<lambda>x. if f x = k then y else x) xs) = map f xs"
  by (induction xs) auto

lemma distinct_map_replace:
  assumes "distinct (map g xs)" and "\<forall>x\<in>set xs. f x \<noteq> f y \<longrightarrow> g x \<noteq> g y"
    and "distinct (map f xs)"
  shows "distinct (map g (map (\<lambda>x. if f x = f y then y else x) xs))"
  using assms
proof (induction xs)
  case Nil then show ?case by simp
next
  case (Cons a xs)
  then show ?case by (auto simp: image_iff)
qed

lemma distinct_map_eq:
  assumes "distinct (map f xs)" and "x \<in> set xs" and "y \<in> set xs" and "f x = f y"
  shows "x = y"
  using assms by (auto simp: distinct_map dest: inj_onD)

text \<open>Writing one row back under its own identity.\<close>

lemma replace_user_ok:
  assumes ok: "db_ok d"
    and row: "int32 (u_id r)" "u_id r < users_id_seq d" "length (u_username r) \<le> 60"
      "no_nul (u_username r)" "no_nul (u_password r)"
    and uniq: "\<forall>x\<in>set (users d). u_id x \<noteq> u_id r \<longrightarrow> u_username x \<noteq> u_username r"
  shows "db_ok (d\<lparr>users := map (\<lambda>u. if u_id u = u_id r then r else u) (users d)\<rparr>)"
proof -
  have "distinct (map u_username (map (\<lambda>x. if u_id x = u_id r then r else x) (users d)))"
    using ok uniq by (intro distinct_map_replace) (auto simp: db_ok_def)
  moreover have "list_all (\<lambda>u. int32 (u_id u) \<and> u_id u < users_id_seq d \<and>
        length (u_username u) \<le> 60 \<and> no_nul (u_username u) \<and> no_nul (u_password u))
     (map (\<lambda>x. if u_id x = u_id r then r else x) (users d))"
    using ok row by (auto simp: db_ok_def list_all_iff)
  ultimately show ?thesis using ok
    by (simp add: db_ok_def map_replace_ids del: map_map)
qed

lemma replace_adv_ok:
  assumes ok: "db_ok d"
    and row: "int32 (a_id r)" "a_id r < advertisements_id_seq d" "no_nul (a_title r)"
      "no_nul (a_description r)"
  shows "db_ok (d\<lparr>advertisements := map (\<lambda>a. if a_id a = a_id r then r else a) (advertisements d)\<rparr>)"
proof -
  have "list_all (\<lambda>a. int32 (a_id a) \<and> a_id a < advertisements_id_seq d \<and>
        no_nul (a_title a) \<and> no_nul (a_description a))
     (map (\<lambda>x. if a_id x = a_id r then r else x) (advertisements d))"
    using ok row by (auto simp: db_ok_def list_all_iff)
  then show ?thesis using ok
    by (simp add: db_ok_def map_replace_ids del: map_map)
qed

lemma stored_user:
  assumes "db_ok d" and "u \<in> set (users d)"
  shows "int32 (u_id u)" "u_id u < users_id_seq d" "length (u_username u) \<le> 60"
    "no_nul (u_username u)" "no_nul (u_password u)"
    "\<forall>x\<in>set (users d). u_id x \<noteq> u_id u \<longrightarrow> u_username x \<noteq> u_username u"
  using assms distinct_map_eq[of u_username "users d" _ u]
  by (auto simp: db_ok_def list_all_iff)

lemma stored_adv:
  assumes "db_ok d" and "a \<in> set (advertisements d)"
  shows "int32 (a_id a)" "a_id a < advertisements_id_seq d" "no_nul (a_title a)"
    "no_nul (a_description a)"
  using assms by (auto simp: db_ok_def list_all_iff)

lemma update_user_cases:
  assumes "update_user old new d = Inr d'"
  shows "d' = d \<or>
    (\<exists>r. d' = d\<lparr>users := map (\<lambda>u. if u_id u = u_id old then r else u) (users d)\<rparr> \<and>
       u_id r = u_id new \<and>
       (u_username r = u_username old \<or>
        (length (u_username r) \<le> 60 \<and> no_nul (u_username r) \<and>
         (\<forall>x\<in>set (users d). u_id x \<noteq> u_id old \<longrightarrow> u_username x \<noteq> u_username r))) \<and>
       (u_password r = u_password old \<or> no_nul (u_password r)))"
proof (cases "new = old")
  case True
  with assms show ?thesis by (simp add: update_user_def)
next
  case False
  show ?thesis
  proof (cases "u_username new = u_username old")
    case True
    with assms False
    have "d' = d\<lparr>users := map (\<lambda>u. if u_id u = u_id old then new else u) (users d)\<rparr>"
      and "u_password new = u_password old \<or> no_nul (u_password new)"
      by (auto simp: update_user_def split: if_splits)
    with True show ?thesis by blast
  next
    case changed: False
    with assms False obtain stored where
      st: "varchar 60 (u_username new) = Some stored"
      and nn: "no_nul (u_username new)"
      and pw: "u_password new = u_password old \<or> no_nul (u_password new)"
      and uq: "\<not> list_ex (\<lambda>u. u_id u \<noteq> u_id old \<and> u_username u = stored) (users d)"
      and d': "d' = d\<lparr>users :=
          map (\<lambda>u. if u_id u = u_id old then new\<lparr>u_username := stored\<rparr> else u) (users d)\<rparr>"
      by (auto simp: update_user_def split: if_splits option.splits)
    let ?r = "new\<lparr>u_username := stored\<rparr>"
    have "length (u_username ?r) \<le> 60" "no_nul (u_username ?r)"
      using varchar_Some(2,3)[OF st] nn by simp_all
    moreover have "\<forall>x\<in>set (users d). u_id x \<noteq> u_id old \<longrightarrow> u_username x \<noteq> u_username ?r"
      using uq by (auto simp: list_ex_iff)
    moreover have "u_id ?r = u_id new" "u_password ?r = u_password old \<or> no_nul (u_password ?r)"
      using pw by simp_all
    ultimately show ?thesis using d' by blast
  qed
qed

lemma update_user_ok:
  assumes ok: "db_ok d" and old: "old \<in> set (users d)" and id: "u_id new = u_id old"
    and upd: "update_user old new d = Inr d'"
  shows "db_ok d'"
proof -
  from update_user_cases[OF upd] consider "d' = d"
    | r where "d' = d\<lparr>users := map (\<lambda>u. if u_id u = u_id old then r else u) (users d)\<rparr>"
       "u_id r = u_id new"
       "u_username r = u_username old \<or>
        (length (u_username r) \<le> 60 \<and> no_nul (u_username r) \<and>
         (\<forall>x\<in>set (users d). u_id x \<noteq> u_id old \<longrightarrow> u_username x \<noteq> u_username r))"
       "u_password r = u_password old \<or> no_nul (u_password r)"
    by blast
  then show ?thesis
  proof cases
    case 1
    then show ?thesis using ok by simp
  next
    case 2
    note s = stored_user[OF ok old]
    have rid: "u_id r = u_id old" using 2(2) id by simp
    have "db_ok (d\<lparr>users := map (\<lambda>u. if u_id u = u_id r then r else u) (users d)\<rparr>)"
    proof (rule replace_user_ok[OF ok])
      show "int32 (u_id r)" "u_id r < users_id_seq d" using s(1,2) rid by simp_all
      show "length (u_username r) \<le> 60" using 2(3) s(3) by auto
      show "no_nul (u_username r)" using 2(3) s(4) by auto
      show "no_nul (u_password r)" using 2(4) s(5) by auto
      show "\<forall>x\<in>set (users d). u_id x \<noteq> u_id r \<longrightarrow> u_username x \<noteq> u_username r"
        using 2(3) s(6) rid by auto
    qed
    then show ?thesis using 2(1) rid by simp
  qed
qed

lemma update_adv_cases:
  assumes "update_adv old new d = Inr d'"
  shows "d' = d \<or>
    (d' = d\<lparr>advertisements := map (\<lambda>a. if a_id a = a_id old then new else a) (advertisements d)\<rparr> \<and>
     (a_title new = a_title old \<or> no_nul (a_title new)) \<and>
     (a_description new = a_description old \<or> no_nul (a_description new)))"
  using assms by (auto simp: update_adv_def split: if_splits)

lemma update_adv_ok:
  assumes ok: "db_ok d" and old: "old \<in> set (advertisements d)" and id: "a_id new = a_id old"
    and upd: "update_adv old new d = Inr d'"
  shows "db_ok d'"
proof -
  from update_adv_cases[OF upd] consider "d' = d"
    | "d' = d\<lparr>advertisements := map (\<lambda>a. if a_id a = a_id old then new else a) (advertisements d)\<rparr>"
      "a_title new = a_title old \<or> no_nul (a_title new)"
      "a_description new = a_description old \<or> no_nul (a_description new)"
    by blast
  then show ?thesis
  proof cases
    case 1
    then show ?thesis using ok by simp
  next
    case 2
    note s = stored_adv[OF ok old]
    have "db_ok (d\<lparr>advertisements := map (\<lambda>a. if a_id a = a_id new then new else a) (advertisements d)\<rparr>)"
    proof (rule replace_adv_ok[OF ok])
      show "int32 (a_id new)" "a_id new < advertisements_id_seq d" using s(1,2) id by simp_all
      show "no_nul (a_title new)" using 2(2) s(3) by auto
      show "no_nul (a_description new)" using 2(3) s(4) by auto
    qed
    then show ?thesis using 2(1) id by simp
  qed
qed

lemma nullify_ids:
  "map a_id (map (\<lambda>a. if a_user_id a = Some k then a\<lparr>a_user_id := None\<rparr> else a) xs) = map a_id xs"
  by (induction xs) auto

lemma delete_user_ok: "db_ok d \<Longrightarrow> db_ok (delete_user u d)"
  unfolding db_ok_def delete_user_def
  by (simp add: nullify_ids distinct_map_filter del: map_map) (auto simp: list_all_iff)

lemma delete_adv_ok: "db_ok d \<Longrightarrow> db_ok (delete_adv a d)"
  unfolding db_ok_def delete_adv_def
  by (auto simp: list_all_iff distinct_map_filter)

lemma UserView_get_db: "snd (UserView_get E req d) = d"
  by (simp add: UserView_get_def split: sum.splits)

lemma AdvView_get_db: "snd (AdvView_get E req d) = d"
  by (simp add: AdvView_get_def split: sum.splits)

lemma UserView_post_db:
  "snd (UserView_post E req d) =
     (case CreateUserModel E (json_body req) of
        Inl e \<Rightarrow> d
      | Inr p \<Rightarrow> snd (insert_user (cu_username p) (cu_password p) d))"
  by (simp add: UserView_post_def split: sum.splits prod.splits)

lemma AdvView_post_db:
  "snd (AdvView_post E now req d) =
     (case CreateAdvModel E (json_body req) of
        Inl e \<Rightarrow> d
      | Inr p \<Rightarrow> snd (insert_adv now (ca_title p) (ca_description p) (ca_user_id p) d))"
  by (simp add: AdvView_post_def split: sum.splits prod.splits)

lemma UserView_post_ok: "db_ok d \<Longrightarrow> db_ok (snd (UserView_post E req d))"
  by (simp add: UserView_post_db insert_user_ok split: sum.splits)

lemma AdvView_post_ok: "db_ok d \<Longrightarrow> db_ok (snd (AdvView_post E now req d))"
  by (simp add: AdvView_post_db insert_adv_ok split: sum.splits)

lemma UserView_delete_ok: "db_ok d \<Longrightarrow> db_ok (snd (UserView_delete E req d))"
  by (auto simp: UserView_delete_def delete_user_ok split: sum.splits)

lemma AdvView_delete_ok: "db_ok d \<Longrightarrow> db_ok (snd (AdvView_delete E req d))"
  by (auto simp: AdvView_delete_def delete_adv_ok split: sum.splits)

lemma UserView_patch_cases:
  "snd (UserView_patch E req d) = d \<or>
   (\<exists>old new. old \<in> set (users d) \<and> u_id new = u_id old \<and>
      update_user old new d = Inr (snd (UserView_patch E req d)))"
proof (cases "\<exists>k kvs old d'. path_int E req ''user_id'' = Inr k \<and>
    PatchUserModel E (json_body req) = Inr kvs \<and> get_user k d = Inr old \<and>
    update_user old (fold (\<lambda>(column, v) u. user_setattr u column v) kvs old) d = Inr d'")
  case True
  then obtain k kvs old d' where h: "path_int E req ''user_id'' = Inr k"
    "PatchUserModel E (json_body req) = Inr kvs" "get_user k d = Inr old"
    "update_user old (fold (\<lambda>(column, v) u. user_setattr u column v) kvs old) d = Inr d'"
    by blast
  then have "snd (UserView_patch E req d) = d'" by (simp add: UserView_patch_def)
  with h(4) get_user_Inr[OF h(3)] fold_user_setattr_id[of kvs old] show ?thesis by metis
next
  case False
  then have "snd (UserView_patch E req d) = d"
    by (auto simp: UserView_patch_def split: sum.splits)
  then show ?thesis by simp
qed

lemma AdvView_patch_cases:
  "snd (AdvView_patch E req d) = d \<or>
   (\<exists>old new. old \<in> set (advertisements d) \<and> a_id new = a_id old \<and>
      update_adv old new d = Inr (snd (AdvView_patch E req d)))"
proof (cases "\<exists>k kvs old d'. path_int E req ''adv_id'' = Inr k \<and>
    PatchAdvModel E (json_body req) = Inr kvs \<and> get_adv k d = Inr old \<and>
    update_adv old (fold (\<lambda>(column, v) a. adv_setattr a column v) kvs old) d = Inr d'")
  case True
  then obtain k kvs old d' where h: "path_int E req ''adv_id'' = Inr k"
    "PatchAdvModel E (json_body req) = Inr kvs" "get_adv k d = Inr old"
    "update_adv old (fold (\<lambda>(column, v) a. adv_setattr a column v) kvs old) d = Inr d'"
    by blast
  then have "snd (AdvView_patch E req d) = d'" by (simp add: AdvView_patch_def)
  with h(4) get_adv_Inr[OF h(3)] fold_adv_setattr_id[of kvs old] show ?thesis by metis
next
  case False
  then have "snd (AdvView_patch E req d) = d"
    by (auto simp: AdvView_patch_def split: sum.splits)
  then show ?thesis by simp
qed

lemma UserView_patch_ok: "db_ok d \<Longrightarrow> db_ok (snd (UserView_patch E req d))"
  using UserView_patch_cases[of E req d] by (auto intro: update_user_ok)

lemma AdvView_patch_ok: "db_ok d \<Longrightarrow> db_ok (snd (AdvView_patch E req d))"
  using AdvView_patch_cases[of E req d] by (auto intro: update_adv_ok)

lemma handle_ok: "db_ok d \<Longrightarrow> db_ok (snd (handle E now v m req d))"
  by (cases v; cases m)
     (simp_all add: UserView_get_db AdvView_get_db UserView_post_ok AdvView_post_ok
        UserView_delete_ok AdvView_delete_ok UserView_patch_ok AdvView_patch_ok)

lemma serve_ok: "db_ok d \<Longrightarrow> db_ok (serve E rs d)"
  by (induction rs arbitrary: d) (auto simp: handle_ok)

text \<open>So the constraints hold in every database the service reaches from the empty one.\<close>

lemma reachable_ok: "db_ok (serve E rs empty_db)"
  by (rule serve_ok) (rule db_ok_empty)

lemma insert_user_gone: "user_gone k d \<Longrightarrow> user_gone k (snd (insert_user un pw d))"
  by (auto simp: user_gone_def insert_user_def Let_def split: option.splits)

lemma insert_user_adv_gone: "adv_gone k d \<Longrightarrow> adv_gone k (snd (insert_user un pw d))"
  by (auto simp: adv_gone_def insert_user_def Let_def split: option.splits)

lemma insert_adv_gone: "adv_gone k d \<Longrightarrow> adv_gone k (snd (insert_adv now t ds u d))"
  by (auto simp: adv_gone_def insert_adv_def Let_def)

lemma insert_adv_user_gone: "user_gone k d \<Longrightarrow> user_gone k (snd (insert_adv now t ds u d))"
  by (auto simp: user_gone_def insert_adv_def Let_def)

lemma update_user_ids:
  assumes "update_user old new d = Inr d'" and "u_id new = u_id old"
  shows "map u_id (users d') = map u_id (users d)" and "users_id_seq d' = users_id_seq d"
    and "advertisements d' = advertisements d"
    and "advertisements_id_seq d' = advertisements_id_seq d"
proof -
  from update_user_cases[OF assms(1)] assms(2) consider "d' = d"
    | r where "d' = d\<lparr>users := map (\<lambda>u. if u_id u = u_id old then r else u) (users d)\<rparr>"
       "u_id r = u_id old"
    by auto
  then have "map u_id (users d') = map u_id (users d) \<and> users_id_seq d' = users_id_seq d \<and>
    advertisements d' = advertisements d \<and> advertisements_id_seq d' = advertisements_id_seq d"
  proof cases
    case 1
    then show ?thesis by simp
  next
    case 2
    then show ?thesis by (simp add: map_replace_ids del: map_map)
  qed
  then show "map u_id (users d') = map u_id (users d)" "users_id_seq d' = users_id_seq d"
    "advertisements d' = advertisements d"
    "advertisements_id_seq d' = advertisements_id_seq d"
    by simp_all
qed

lemma update_adv_ids:
  assumes "update_adv old new d = Inr d'" and "a_id new = a_id old"
  shows "map a_id (advertisements d') = map a_id (advertisements d)"
    and "advertisements_id_seq d' = advertisements_id_seq d"
    and "users d' = users d" and "users_id_seq d' = users_id_seq d"
proof -
  from update_adv_cases[OF assms(1)] consider "d' = d"
    | "d' = d\<lparr>advertisements := map (\<lambda>a. if a_id a = a_id old then new else a) (advertisements d)\<rparr>"
    by auto
  then have "map a_id (advertisements d') = map a_id (advertisements d) \<and>
    advertisements_id_seq d' = advertisements_id_seq d \<and> users d' = users d \<and>
    users_id_seq d' = users_id_seq d"
  proof cases
    case 1
    then show ?thesis by simp
  next
    case 2
    then show ?thesis using assms(2) by (simp add: map_replace_ids del: map_map)
  qed
  then show "map a_id (advertisements d') = map a_id (advertisements d)"
    "advertisements_id_seq d' = advertisements_id_seq d"
    "users d' = users d" "users_id_seq d' = users_id_seq d"
    by simp_all
qed

lemma UserView_patch_ids:
  "map u_id (users (snd (UserView_patch E req d))) = map u_id (users d) \<and>
   users_id_seq (snd (UserView_patch E req d)) = users_id_seq d \<and>
   advertisements (snd (UserView_patch E req d)) = advertisements d \<and>
   advertisements_id_seq (snd (UserView_patch E req d)) = advertisements_id_seq d"
  using UserView_patch_cases[of E req d] by (auto simp: update_user_ids)

lemma AdvView_patch_ids:
  "map a_id (advertisements (snd (AdvView_patch E req d))) = map a_id (advertisements d) \<and>
   advertisements_id_seq (snd (AdvView_patch E req d)) = advertisements_id_seq d \<and>
   users (snd (AdvView_patch E req d)) = users d \<and>
   users_id_seq (snd (AdvView_patch E req d)) = users_id_seq d"
  using AdvView_patch_cases[of E req d] by (auto simp: update_adv_ids)

lemma UserView_patch_gone:
  "user_gone k d \<Longrightarrow> user_gone k (snd (UserView_patch E req d))"
  "adv_gone k d \<Longrightarrow> adv_gone k (snd (UserView_patch E req d))"
  using UserView_patch_ids[of E req d] by (simp_all add: user_gone_def adv_gone_def)

lemma AdvView_patch_gone:
  "user_gone k d \<Longrightarrow> user_gone k (snd (AdvView_patch E req d))"
  "adv_gone k d \<Longrightarrow> adv_gone k (snd (AdvView_patch E req d))"
  using AdvView_patch_ids[of E req d] by (simp_all add: user_gone_def adv_gone_def)

lemma delete_user_gone: "user_gone k d \<Longrightarrow> user_gone k (delete_user u d)"
  by (auto simp: user_gone_def delete_user_def)

lemma delete_user_adv_gone: "adv_gone k d \<Longrightarrow> adv_gone k (delete_user u d)"
  by (simp add: adv_gone_def delete_user_def nullify_ids del: map_map)

lemma delete_adv_gone: "adv_gone k d \<Longrightarrow> adv_gone k (delete_adv a d)"
  by (auto simp: adv_gone_def delete_adv_def)

lemma delete_adv_user_gone: "user_gone k d \<Longrightarrow> user_gone k (delete_adv a d)"
  by (auto simp: user_gone_def delete_adv_def)

lemma UserView_delete_gone:
  "user_gone k d \<Longrightarrow> user_gone k (snd (UserView_delete E req d))"
  "adv_gone k d \<Longrightarrow> adv_gone k (snd (UserView_delete E req d))"
  by (auto simp: UserView_delete_def delete_user_gone delete_user_adv_gone split: sum.splits)

lemma AdvView_delete_gone:
  "user_gone k d \<Longrightarrow> user_gone k (snd (AdvView_delete E req d))"
  "adv_gone k d \<Longrightarrow> adv_gone k (snd (AdvView_delete E req d))"
  by (auto simp: AdvView_delete_def delete_adv_gone delete_adv_user_gone split: sum.splits)

lemma UserView_post_gone:
  "user_gone k d \<Longrightarrow> user_gone k (snd (UserView_post E req d))"
  "adv_gone k d \<Longrightarrow> adv_gone k (snd (UserView_post E req d))"
  by (simp_all add: UserView_post_db insert_user_gone insert_user_adv_gone split: sum.splits)

lemma AdvView_post_gone:
  "user_gone k d \<Longrightarrow> user_gone k (snd (AdvView_post E now req d))"
  "adv_gone k d \<Longrightarrow> adv_gone k (snd (AdvView_post E now req d))"
  by (simp_all add: AdvView_post_db insert_adv_gone insert_adv_user_gone split: sum.splits)

lemma handle_user_gone: "user_gone k d \<Longrightarrow> user_gone k (snd (handle E now v m req d))"
  by (cases v; cases m)
     (simp_all add: UserView_get_db AdvView_get_db UserView_post_gone AdvView_post_gone
        UserView_delete_gone AdvView_delete_gone UserView_patch_gone AdvView_patch_gone)

lemma handle_adv_gone: "adv_gone k d \<Longrightarrow> adv_gone k (snd (handle E now v m req d))"
  by (cases v; cases m)
     (simp_all add: UserView_get_db AdvView_get_db UserView_post_gone AdvView_post_gone
        UserView_delete_gone AdvView_delete_gone UserView_patch_gone AdvView_patch_gone)

lemma serve_user_gone: "user_gone k d \<Longrightarrow> user_gone k (serve E rs d)"
  by (induction rs arbitrary: d) (auto simp: handle_user_gone)

lemma serve_adv_gone: "adv_gone k d \<Longrightarrow> adv_gone k (serve E rs d)"
  by (induction rs arbitrary: d) (auto simp: handle_adv_gone)

section \<open>Properties of the service\<close>

subsection \<open>C10: the identity in the path converts to an integer\<close>

text \<open>
  Claim C10, as amended. A request that the router hands to a \<^verbatim>\<open>get\<close>, \<^verbatim>\<open>patch\<close> or
  \<^verbatim>\<open>delete\<close> method carries exactly one path parameter, under the name the view reads,
  and its value is a non-empty run of decimal digits. If the run is no longer than the
  interpreter's limit for \<^verbatim>\<open>int()\<close> (or the limit is switched off), the conversion at
  the top of the handler returns a non-negative integer; if the run is longer than the
  limit, the conversion raises \<^verbatim>\<open>ValueError\<close>.
\<close>

theorem route_id_int_total:
  assumes "resolve m path = Some (v, mi)" and "m \<noteq> POST"
  shows "\<exists>seg. mi = [(path_parameter v, seg)] \<and> digits1 seg \<and>
           (int_max_str_digits E = 0 \<or> length seg \<le> int_max_str_digits E \<longrightarrow>
            (\<exists>n\<ge>0. path_int E \<lparr>match_info = mi, json_body = b\<rparr> (path_parameter v) = Inr n)) \<and>
           (0 < int_max_str_digits E \<and> int_max_str_digits E < length seg \<longrightarrow>
            path_int E \<lparr>match_info = mi, json_body = b\<rparr> (path_parameter v) = Inl ValueError)"
proof -
  from resolve_dynamic[OF assms] obtain seg where
    mi: "mi = [(path_parameter v, seg)]" and dg: "digits1 seg" by blast
  have "path_int E \<lparr>match_info = mi, json_body = b\<rparr> (path_parameter v) = Inl ValueError"
    if "0 < int_max_str_digits E \<and> int_max_str_digits E < length seg"
    using that dg mi by (simp add: path_int_def py_int_digits)
  then show ?thesis using mi dg path_int_digits[OF dg] by blast
qed

text \<open>
  Without the bound the conversion can fail: under the default limit of 4300 digits the
  path \<^verbatim>\<open>/users/\<close> followed by 4301 digits is routed to \<^verbatim>\<open>UserView.get\<close>, and the
  handler ends in \<^verbatim>\<open>ValueError\<close>.
\<close>

lemma digits1_replicate: "0 < n \<Longrightarrow> digits1 (replicate n CHR ''1'')"
  by (induction n) (auto simp: digits1_def is_digit_def list_all_iff)

theorem long_id_counterexample:
  "resolve GET (''/users/'' @ replicate 4301 CHR ''1'')
     = Some (UserView, [(''user_id'', replicate 4301 CHR ''1'')]) \<and>
   fst (UserView_get default_env
          \<lparr>match_info = [(''user_id'', replicate 4301 CHR ''1'')], json_body = JNull\<rparr> empty_db)
     = Inl ValueError"
proof -
  have d: "digits1 (replicate 4301 CHR ''1'')" by (rule digits1_replicate) simp
  have r: "resolve GET (''/users/'' @ replicate 4301 CHR ''1'')
     = Some (UserView, [(''user_id'', replicate 4301 CHR ''1'')])"
    using d by (simp add: resolve_def routes_def)
  have p: "py_int 4300 (replicate 4301 CHR ''1'') = None"
    using d by (simp add: py_int_digits)
  show ?thesis using r p by (simp add: UserView_get_def path_int_def default_env_def)
qed

theorem route_id_int_total_witness:
  "resolve GET ''/users/12'' = Some (UserView, [(''user_id'', ''12'')]) \<and> GET \<noteq> POST \<and>
   path_int default_env \<lparr>match_info = [(''user_id'', ''12'')], json_body = JNull\<rparr> ''user_id'' = Inr 12 \<and>
   resolve GET (''/users/'' @ replicate 4301 CHR ''1'')
     = Some (UserView, [(''user_id'', replicate 4301 CHR ''1'')]) \<and>
   path_int default_env
     \<lparr>match_info = [(''user_id'', replicate 4301 CHR ''1'')], json_body = JNull\<rparr> ''user_id''
     = Inl ValueError"
proof -
  have r: "resolve GET ''/users/12'' = Some (UserView, [(''user_id'', ''12'')])"
    by (simp add: resolve_def routes_def digits1_def is_digit_def)
  have m: "GET \<noteq> POST" by simp
  have v: "path_int default_env \<lparr>match_info = [(''user_id'', ''12'')], json_body = JNull\<rparr> ''user_id'' = Inr 12"
    using route_id_int_total[OF r m, of default_env JNull]
    by (simp add: default_env_def path_int_def py_int_def strip_def is_space_def unsigned_int_def is_digit_def digit_val_def)
  have d: "digits1 (replicate 4301 CHR ''1'')" by (rule digits1_replicate) simp
  have r': "resolve GET (''/users/'' @ replicate 4301 CHR ''1'')
     = Some (UserView, [(''user_id'', replicate 4301 CHR ''1'')])"
    using d by (simp add: resolve_def routes_def)
  have l: "0 < int_max_str_digits default_env \<and>
      int_max_str_digits default_env < length (replicate 4301 CHR ''1'')"
    by (simp add: default_env_def)
  have v': "path_int default_env
     \<lparr>match_info = [(''user_id'', replicate 4301 CHR ''1'')], json_body = JNull\<rparr> ''user_id''
     = Inl ValueError"
    using route_id_int_total[OF r' m, of default_env JNull] l by simp
  show ?thesis using r m v r' v' by simp
qed

subsection \<open>C6: an identity that is not stored\<close>

lemma get_user_absent:
  "int32 k \<Longrightarrow> k \<notin> set (map u_id (users d)) \<Longrightarrow>
   get_user k d = Inl (NotFound (JStr ''user not found''))"
  by (auto simp: get_user_def find_None_iff split: option.splits)

lemma get_adv_absent:
  "int32 k \<Longrightarrow> k \<notin> set (map a_id (advertisements d)) \<Longrightarrow>
   get_adv k d = Inl (NotFound (JStr ''advertisement not found''))"
  by (auto simp: get_adv_def find_None_iff split: option.splits)

lemma get_user_range: "\<not> int32 k \<Longrightarrow> get_user k d = Inl DBAPIError"
  by (simp add: get_user_def)

lemma get_adv_range: "\<not> int32 k \<Longrightarrow> get_adv k d = Inl DBAPIError"
  by (simp add: get_adv_def)

lemma get_user_present:
  assumes "db_ok d" and "k \<in> set (map u_id (users d))"
  shows "\<exists>u. get_user k d = Inr u \<and> u \<in> set (users d) \<and> u_id u = k"
proof -
  from assms have "int32 k" by (auto simp: db_ok_def list_all_iff)
  moreover from assms(2) obtain u where "find (\<lambda>u. u_id u = k) (users d) = Some u"
    by (cases "find (\<lambda>u. u_id u = k) (users d)") (auto simp: find_None_iff)
  ultimately show ?thesis by (auto simp: get_user_def dest: find_Some_mem)
qed

lemma get_adv_present:
  assumes "db_ok d" and "k \<in> set (map a_id (advertisements d))"
  shows "\<exists>a. get_adv k d = Inr a \<and> a \<in> set (advertisements d) \<and> a_id a = k"
proof -
  from assms have "int32 k" by (auto simp: db_ok_def list_all_iff)
  moreover from assms(2) obtain a where "find (\<lambda>a. a_id a = k) (advertisements d) = Some a"
    by (cases "find (\<lambda>a. a_id a = k) (advertisements d)") (auto simp: find_None_iff)
  ultimately show ?thesis by (auto simp: get_adv_def dest: find_Some_mem)
qed

lemma status_NotFound: "http_status (Inl (NotFound msg)) = Some 404"
  by (simp add: NotFound_def ApiError_def)

lemma body_NotFound:
  "http_body (Inl (NotFound msg)) = Some (JObj [(''status'', JStr ''error''), (''description'', msg)])"
  by (simp add: NotFound_def ApiError_def)

lemma user_lookup_fails:
  assumes "path_int E req ''user_id'' = Inr k" and "get_user k d = Inl e"
  shows "UserView_get E req d = (Inl e, d)"
    and "UserView_delete E req d = (Inl e, d)"
    and "PatchUserModel E (json_body req) = Inr json_data \<Longrightarrow> UserView_patch E req d = (Inl e, d)"
  using assms by (simp_all add: UserView_get_def UserView_delete_def UserView_patch_def)

lemma adv_lookup_fails:
  assumes "path_int E req ''adv_id'' = Inr k" and "get_adv k d = Inl e"
  shows "AdvView_get E req d = (Inl e, d)"
    and "AdvView_delete E req d = (Inl e, d)"
    and "PatchAdvModel E (json_body req) = Inr json_data \<Longrightarrow> AdvView_patch E req d = (Inl e, d)"
  using assms by (simp_all add: AdvView_get_def AdvView_delete_def AdvView_patch_def)

lemma user_absent_handlers:
  assumes "path_int E req ''user_id'' = Inr k" and "int32 k"
    and "k \<notin> set (map u_id (users d))"
  shows "UserView_get E req d = (Inl (NotFound (JStr ''user not found'')), d)"
    and "UserView_delete E req d = (Inl (NotFound (JStr ''user not found'')), d)"
    and "PatchUserModel E (json_body req) = Inr json_data \<Longrightarrow>
         UserView_patch E req d = (Inl (NotFound (JStr ''user not found'')), d)"
  using user_lookup_fails[OF assms(1) get_user_absent[OF assms(2,3)]] by simp_all

lemma adv_absent_handlers:
  assumes "path_int E req ''adv_id'' = Inr k" and "int32 k"
    and "k \<notin> set (map a_id (advertisements d))"
  shows "AdvView_get E req d = (Inl (NotFound (JStr ''advertisement not found'')), d)"
    and "AdvView_delete E req d = (Inl (NotFound (JStr ''advertisement not found'')), d)"
    and "PatchAdvModel E (json_body req) = Inr json_data \<Longrightarrow>
         AdvView_patch E req d = (Inl (NotFound (JStr ''advertisement not found'')), d)"
  using adv_lookup_fails[OF assms(1) get_adv_absent[OF assms(2,3)]] by simp_all

lemma user_out_of_range_handlers:
  assumes "path_int E req ''user_id'' = Inr k" and "\<not> int32 k"
  shows "UserView_get E req d = (Inl DBAPIError, d)"
    and "UserView_delete E req d = (Inl DBAPIError, d)"
    and "PatchUserModel E (json_body req) = Inr json_data \<Longrightarrow>
         UserView_patch E req d = (Inl DBAPIError, d)"
  using user_lookup_fails[OF assms(1) get_user_range[OF assms(2)]] by simp_all

lemma adv_out_of_range_handlers:
  assumes "path_int E req ''adv_id'' = Inr k" and "\<not> int32 k"
  shows "AdvView_get E req d = (Inl DBAPIError, d)"
    and "AdvView_delete E req d = (Inl DBAPIError, d)"
    and "PatchAdvModel E (json_body req) = Inr json_data \<Longrightarrow>
         AdvView_patch E req d = (Inl DBAPIError, d)"
  using adv_lookup_fails[OF assms(1) get_adv_range[OF assms(2)]] by simp_all

text \<open>
  Claim C6, as amended. When the identity in the path is in the range of the
  \<^verbatim>\<open>Integer\<close> key and no user (no advertisement) has it, \<^verbatim>\<open>get\<close> and \<^verbatim>\<open>delete\<close> raise
  \<^verbatim>\<open>NotFound\<close>: status 404 with the body \<^verbatim>\<open>{"status": "error", "description": ...}\<close>,
  and nothing stored changes. \<^verbatim>\<open>patch\<close> does the same provided the body passes the patch
  model, which is checked before the lookup. When the identity is outside that range, the
  lookup of each of the three operations (for \<^verbatim>\<open>patch\<close>, again after a body that passes)
  raises \<^verbatim>\<open>DBAPIError\<close> instead: status 500, and nothing stored changes.
\<close>

theorem absent_id_not_found:
  "(path_int E req ''user_id'' = Inr k \<and> int32 k \<and> k \<notin> set (map u_id (users d)) \<longrightarrow>
      UserView_get E req d = (Inl (NotFound (JStr ''user not found'')), d) \<and>
      UserView_delete E req d = (Inl (NotFound (JStr ''user not found'')), d) \<and>
      (\<forall>json_data. PatchUserModel E (json_body req) = Inr json_data \<longrightarrow>
         UserView_patch E req d = (Inl (NotFound (JStr ''user not found'')), d)) \<and>
      http_status (Inl (NotFound (JStr ''user not found''))) = Some 404 \<and>
      http_body (Inl (NotFound (JStr ''user not found''))) =
        Some (JObj [(''status'', JStr ''error''), (''description'', JStr ''user not found'')])) \<and>
   (path_int E req ''adv_id'' = Inr k \<and> int32 k \<and> k \<notin> set (map a_id (advertisements d)) \<longrightarrow>
      AdvView_get E req d = (Inl (NotFound (JStr ''advertisement not found'')), d) \<and>
      AdvView_delete E req d = (Inl (NotFound (JStr ''advertisement not found'')), d) \<and>
      (\<forall>json_data. PatchAdvModel E (json_body req) = Inr json_data \<longrightarrow>
         AdvView_patch E req d = (Inl (NotFound (JStr ''advertisement not found'')), d)) \<and>
      http_status (Inl (NotFound (JStr ''advertisement not found''))) = Some 404 \<and>
      http_body (Inl (NotFound (JStr ''advertisement not found''))) =
        Some (JObj [(''status'', JStr ''error''),
                    (''description'', JStr ''advertisement not found'')])) \<and>
   (path_int E req ''user_id'' = Inr k \<and> \<not> int32 k \<longrightarrow>
      UserView_get E req d = (Inl DBAPIError, d) \<and>
      UserView_delete E req d = (Inl DBAPIError, d) \<and>
      (\<forall>json_data. PatchUserModel E (json_body req) = Inr json_data \<longrightarrow>
         UserView_patch E req d = (Inl DBAPIError, d))) \<and>
   (path_int E req ''adv_id'' = Inr k \<and> \<not> int32 k \<longrightarrow>
      AdvView_get E req d = (Inl DBAPIError, d) \<and>
      AdvView_delete E req d = (Inl DBAPIError, d) \<and>
      (\<forall>json_data. PatchAdvModel E (json_body req) = Inr json_data \<longrightarrow>
         AdvView_patch E req d = (Inl DBAPIError, d))) \<and>
   http_status (Inl DBAPIError) = Some 500"
  using user_absent_handlers[where E = E and req = req and k = k and d = d]
    adv_absent_handlers[where E = E and req = req and k = k and d = d]
    user_out_of_range_handlers[where E = E and req = req and k = k and d = d]
    adv_out_of_range_handlers[where E = E and req = req and k = k and d = d]
  by (simp add: status_NotFound body_NotFound)

lemmas eval_defs = request_of_def default_env_def path_int_def py_int_def strip_def is_space_def
  unsigned_int_def is_digit_def digit_val_def

lemma path_int_7:
  "path_int default_env (request_of [(''user_id'', ''7''), (''adv_id'', ''7'')] b) ''user_id'' = Inr 7"
  "path_int default_env (request_of [(''user_id'', ''7''), (''adv_id'', ''7'')] b) ''adv_id'' = Inr 7"
  by (simp_all add: eval_defs)

lemma path_int_big:
  "path_int default_env (request_of [(''user_id'', ''2147483648'')] b) ''user_id'' = Inr 2147483648"
  by (simp add: eval_defs)

theorem absent_id_not_found_witness:
  "path_int default_env (request_of [(''user_id'', ''7''), (''adv_id'', ''7'')] (JObj [])) ''user_id'' = Inr 7 \<and>
   path_int default_env (request_of [(''user_id'', ''7''), (''adv_id'', ''7'')] (JObj [])) ''adv_id'' = Inr 7 \<and>
   int32 7 \<and>
   7 \<notin> set (map u_id (users db_sample)) \<and> 7 \<notin> set (map a_id (advertisements db_sample)) \<and>
   PatchUserModel default_env (JObj []) = Inr [] \<and> PatchAdvModel default_env (JObj []) = Inr [] \<and>
   http_status (fst (UserView_get default_env (request_of [(''user_id'', ''7''), (''adv_id'', ''7'')] (JObj [])) db_sample)) = Some 404 \<and>
   http_status (fst (UserView_patch default_env (request_of [(''user_id'', ''7''), (''adv_id'', ''7'')] (JObj [])) db_sample)) = Some 404 \<and>
   http_status (fst (AdvView_delete default_env (request_of [(''user_id'', ''7''), (''adv_id'', ''7'')] (JObj [])) db_sample)) = Some 404 \<and>
   http_status (fst (AdvView_patch default_env (request_of [(''user_id'', ''7''), (''adv_id'', ''7'')] (JObj [])) db_sample)) = Some 404 \<and>
   path_int default_env (request_of [(''user_id'', ''2147483648'')] JNull) ''user_id'' = Inr 2147483648 \<and>
   \<not> int32 2147483648 \<and>
   UserView_delete default_env (request_of [(''user_id'', ''2147483648'')] JNull) db_sample
     = (Inl DBAPIError, db_sample)"
proof -
  let ?r = "request_of [(''user_id'', ''7''), (''adv_id'', ''7'')] (JObj [])"
  let ?b = "request_of [(''user_id'', ''2147483648'')] JNull"
  have u: "7 \<notin> set (map u_id (users db_sample))" and a: "7 \<notin> set (map a_id (advertisements db_sample))"
    by (simp_all add: db_sample_def alice_def bike_def)
  have i: "int32 7" "\<not> int32 2147483648" by (simp_all add: int32_def)
  have pu: "PatchUserModel default_env (json_body ?r) = Inr []"
    and pa: "PatchAdvModel default_env (json_body ?r) = Inr []"
    by (simp_all add: request_of_def optional_def exclude_none_def)
  have 1: "http_status (fst (UserView_get default_env ?r db_sample)) = Some 404"
    "http_status (fst (UserView_patch default_env ?r db_sample)) = Some 404"
    "http_status (fst (AdvView_delete default_env ?r db_sample)) = Some 404"
    "http_status (fst (AdvView_patch default_env ?r db_sample)) = Some 404"
    using absent_id_not_found[of default_env ?r 7 db_sample] path_int_7[of "JObj []"] u a pu pa i(1)
    by simp_all
  have 2: "UserView_delete default_env ?b db_sample = (Inl DBAPIError, db_sample)"
    using absent_id_not_found[of default_env ?b 2147483648 db_sample] path_int_big[of JNull] i(2)
    by simp
  show ?thesis
    using path_int_7[of "JObj []"] path_int_big[of JNull] i u a pu pa 1 2
    by (simp add: request_of_def)
qed

text \<open>
  A patch of an absent identity whose body the patch model rejects does not end in 404:
  the validation error comes first and no handler catches it. Nor does a read of
  \<^verbatim>\<open>/users/2147483648\<close>, which no user has: the key is outside the range of the column.
\<close>

theorem absent_id_not_404_counterexample:
  "path_int default_env (request_of [(''user_id'', ''7'')] (JObj [(''username'', JArr [])])) ''user_id'' = Inr 7 \<and>
   7 \<notin> set (map u_id (users db_sample)) \<and>
   fst (UserView_patch default_env (request_of [(''user_id'', ''7'')] (JObj [(''username'', JArr [])])) db_sample)
     = Inl ValidationError \<and>
   http_status (fst (UserView_patch default_env (request_of [(''user_id'', ''7'')] (JObj [(''username'', JArr [])])) db_sample))
     = Some 500 \<and>
   resolve GET ''/users/2147483648'' = Some (UserView, [(''user_id'', ''2147483648'')]) \<and>
   path_int default_env (request_of [(''user_id'', ''2147483648'')] JNull) ''user_id'' = Inr 2147483648 \<and>
   2147483648 \<notin> set (map u_id (users db_sample)) \<and>
   fst (UserView_get default_env (request_of [(''user_id'', ''2147483648'')] JNull) db_sample)
     = Inl DBAPIError \<and>
   http_status (fst (UserView_get default_env (request_of [(''user_id'', ''2147483648'')] JNull) db_sample))
     = Some 500"
proof -
  have r: "resolve GET ''/users/2147483648'' = Some (UserView, [(''user_id'', ''2147483648'')])"
    by (simp add: resolve_def routes_def digits1_def is_digit_def)
  have 1: "path_int default_env (request_of [(''user_id'', ''7'')] (JObj [(''username'', JArr [])])) ''user_id'' = Inr 7 \<and>
   7 \<notin> set (map u_id (users db_sample)) \<and>
   fst (UserView_patch default_env (request_of [(''user_id'', ''7'')] (JObj [(''username'', JArr [])])) db_sample)
     = Inl ValidationError"
    by (simp add: eval_defs UserView_patch_def optional_def db_sample_def alice_def)
  have 2: "2147483648 \<notin> set (map u_id (users db_sample))"
    by (simp add: db_sample_def alice_def)
  have 3: "fst (UserView_get default_env (request_of [(''user_id'', ''2147483648'')] JNull) db_sample)
     = Inl DBAPIError"
    using path_int_big[of JNull] by (simp add: UserView_get_def get_user_def int32_def)
  show ?thesis using r 1 2 3 path_int_big[of JNull] by simp
qed

subsection \<open>C7: delete, then read\<close>

lemma delete_user_makes_gone:
  assumes "db_ok d" and "u \<in> set (users d)"
  shows "user_gone (u_id u) (delete_user u d)"
  using assms by (auto simp: user_gone_def delete_user_def db_ok_def list_all_iff)

lemma delete_adv_makes_gone:
  assumes "db_ok d" and "a \<in> set (advertisements d)"
  shows "adv_gone (a_id a) (delete_adv a d)"
  using assms by (auto simp: adv_gone_def delete_adv_def db_ok_def list_all_iff)

lemma user_delete_then_read:
  assumes ok: "db_ok d" and k: "path_int E req ''user_id'' = Inr k"
    and stored: "k \<in> set (map u_id (users d))"
  shows "fst (UserView_delete E req d) = Inr (Response 200 (JObj [(''status'', JStr ''succes'')]))"
    and "path_int E req' ''user_id'' = Inr k \<Longrightarrow>
         fst (UserView_get E req' (serve E rs (snd (UserView_delete E req d))))
           = Inl (NotFound (JStr ''user not found''))"
proof -
  from get_user_present[OF ok stored] obtain u where
    u: "get_user k d = Inr u" "u \<in> set (users d)" "u_id u = k" by blast
  have del: "UserView_delete E req d =
      (Inr (Response 200 (JObj [(''status'', JStr ''succes'')])), delete_user u d)"
    using k u(1) by (simp add: UserView_delete_def json_response_def)
  show "fst (UserView_delete E req d) = Inr (Response 200 (JObj [(''status'', JStr ''succes'')]))"
    by (simp add: del)
  assume k': "path_int E req' ''user_id'' = Inr k"
  have "user_gone k (delete_user u d)"
    using delete_user_makes_gone[OF ok u(2)] u(3) by simp
  then have "user_gone k (serve E rs (delete_user u d))" by (rule serve_user_gone)
  then have "k \<notin> set (map u_id (users (serve E rs (delete_user u d))))"
    by (simp add: user_gone_def)
  from user_absent_handlers(1)[OF k' stored_user(1)[OF ok u(2), unfolded u(3)] this]
  show "fst (UserView_get E req' (serve E rs (snd (UserView_delete E req d))))
           = Inl (NotFound (JStr ''user not found''))"
    by (simp add: del)
qed

lemma adv_delete_then_read:
  assumes ok: "db_ok d" and k: "path_int E req ''adv_id'' = Inr k"
    and stored: "k \<in> set (map a_id (advertisements d))"
  shows "fst (AdvView_delete E req d) = Inr (Response 200 (JObj [(''status'', JStr ''succes'')]))"
    and "path_int E req' ''adv_id'' = Inr k \<Longrightarrow>
         fst (AdvView_get E req' (serve E rs (snd (AdvView_delete E req d))))
           = Inl (NotFound (JStr ''advertisement not found''))"
proof -
  from get_adv_present[OF ok stored] obtain a where
    a: "get_adv k d = Inr a" "a \<in> set (advertisements d)" "a_id a = k" by blast
  have del: "AdvView_delete E req d =
      (Inr (Response 200 (JObj [(''status'', JStr ''succes'')])), delete_adv a d)"
    using k a(1) by (simp add: AdvView_delete_def json_response_def)
  show "fst (AdvView_delete E req d) = Inr (Response 200 (JObj [(''status'', JStr ''succes'')]))"
    by (simp add: del)
  assume k': "path_int E req' ''adv_id'' = Inr k"
  have "adv_gone k (delete_adv a d)"
    using delete_adv_makes_gone[OF ok a(2)] a(3) by simp
  then have "adv_gone k (serve E rs (delete_adv a d))" by (rule serve_adv_gone)
  then have "k \<notin> set (map a_id (advertisements (serve E rs (delete_adv a d))))"
    by (simp add: adv_gone_def)
  from adv_absent_handlers(1)[OF k' stored_adv(1)[OF ok a(2), unfolded a(3)] this]
  show "fst (AdvView_get E req' (serve E rs (snd (AdvView_delete E req d))))
           = Inl (NotFound (JStr ''advertisement not found''))"
    by (simp add: del)
qed

text \<open>
  Claim C7. In a database that satisfies the declared constraints, deleting a stored
  user (advertisement) returns a response of status 200 with the body
  \<^verbatim>\<open>{"status": "succes"}\<close>, and after any further requests served since, reading that
  identity raises \<^verbatim>\<open>NotFound\<close> (status 404): the sequence never hands the identity out
  again.
\<close>

theorem delete_then_read_not_found:
  "(db_ok d \<and> path_int E req ''user_id'' = Inr k \<and> k \<in> set (map u_id (users d)) \<longrightarrow>
      fst (UserView_delete E req d) = Inr (Response 200 (JObj [(''status'', JStr ''succes'')])) \<and>
      (\<forall>rs req'. path_int E req' ''user_id'' = Inr k \<longrightarrow>
         fst (UserView_get E req' (serve E rs (snd (UserView_delete E req d))))
           = Inl (NotFound (JStr ''user not found''))) \<and>
      http_status (Inl (NotFound (JStr ''user not found''))) = Some 404) \<and>
   (db_ok d \<and> path_int E req ''adv_id'' = Inr k \<and> k \<in> set (map a_id (advertisements d)) \<longrightarrow>
      fst (AdvView_delete E req d) = Inr (Response 200 (JObj [(''status'', JStr ''succes'')])) \<and>
      (\<forall>rs req'. path_int E req' ''adv_id'' = Inr k \<longrightarrow>
         fst (AdvView_get E req' (serve E rs (snd (AdvView_delete E req d))))
           = Inl (NotFound (JStr ''advertisement not found''))) \<and>
      http_status (Inl (NotFound (JStr ''advertisement not found''))) = Some 404)"
  using user_delete_then_read[of d E req k] adv_delete_then_read[of d E req k]
  by (simp add: status_NotFound)

lemma db_sample_ok: "db_ok db_sample"
  by (simp add: db_ok_def db_sample_def alice_def bike_def int32_def no_nul_def)

lemma path_int_1:
  "path_int default_env (request_of [(''user_id'', ''1''), (''adv_id'', ''1'')] b) ''user_id'' = Inr 1"
  "path_int default_env (request_of [(''user_id'', ''1''), (''adv_id'', ''1'')] b) ''adv_id'' = Inr 1"
  by (simp_all add: eval_defs)

theorem delete_then_read_not_found_witness:
  "db_ok db_sample \<and>
   path_int default_env (request_of [(''user_id'', ''1''), (''adv_id'', ''1'')] JNull) ''user_id'' = Inr 1 \<and>
   path_int default_env (request_of [(''user_id'', ''1''), (''adv_id'', ''1'')] JNull) ''adv_id'' = Inr 1 \<and>
   1 \<in> set (map u_id (users db_sample)) \<and> 1 \<in> set (map a_id (advertisements db_sample)) \<and>
   http_status (fst (UserView_delete default_env
       (request_of [(''user_id'', ''1''), (''adv_id'', ''1'')] JNull) db_sample)) = Some 200 \<and>
   http_status (fst (UserView_get default_env (request_of [(''user_id'', ''1''), (''adv_id'', ''1'')] JNull)
       (serve default_env [(''2023-01-02T00:00:00'', UserView, POST, request_of [] alice_payload)]
          (snd (UserView_delete default_env
             (request_of [(''user_id'', ''1''), (''adv_id'', ''1'')] JNull) db_sample))))) = Some 404 \<and>
   http_status (fst (AdvView_get default_env (request_of [(''user_id'', ''1''), (''adv_id'', ''1'')] JNull)
       (serve default_env [(''2023-01-02T00:00:00'', AdvView, POST, request_of [] bike_payload)]
          (snd (AdvView_delete default_env
             (request_of [(''user_id'', ''1''), (''adv_id'', ''1'')] JNull) db_sample))))) = Some 404"
proof -
  let ?r = "request_of [(''user_id'', ''1''), (''adv_id'', ''1'')] JNull"
  have u: "1 \<in> set (map u_id (users db_sample))" and a: "1 \<in> set (map a_id (advertisements db_sample))"
    by (simp_all add: db_sample_def alice_def bike_def)
  note t = delete_then_read_not_found[of db_sample default_env ?r 1]
  have 1: "http_status (fst (UserView_delete default_env ?r db_sample)) = Some 200"
    using t db_sample_ok path_int_1[of JNull] u by simp
  have 2: "fst (UserView_get default_env ?r
       (serve default_env [(''2023-01-02T00:00:00'', UserView, POST, request_of [] alice_payload)]
          (snd (UserView_delete default_env ?r db_sample)))) = Inl (NotFound (JStr ''user not found''))"
    using t db_sample_ok path_int_1[of JNull] u by blast
  have 3: "fst (AdvView_get default_env ?r
       (serve default_env [(''2023-01-02T00:00:00'', AdvView, POST, request_of [] bike_payload)]
          (snd (AdvView_delete default_env ?r db_sample)))) = Inl (NotFound (JStr ''advertisement not found''))"
    using t db_sample_ok path_int_1[of JNull] a by blast
  show ?thesis
    using db_sample_ok path_int_1[of JNull] u a 1 2 3 by (simp add: status_NotFound)
qed

subsection \<open>C3: a second user of the same name\<close>







subsection \<open>C1: what a create stores and returns\<close>






subsection \<open>C2: a body that fails validation\<close>

lemma CreateUserModel_Inl:
  "CreateUserModel E b = Inl e \<Longrightarrow> e = ValidationError \<or> e = TypeError"
  by (cases b) (auto split: option.splits)

lemma CreateAdvModel_Inl:
  "CreateAdvModel E b = Inl e \<Longrightarrow> e = ValidationError \<or> e = TypeError"
  by (cases b) (auto split: option.splits)

lemma PatchUserModel_Inl:
  "PatchUserModel E b = Inl e \<Longrightarrow> e = ValidationError \<or> e = TypeError"
  by (cases b) (auto split: option.splits)

lemma PatchAdvModel_Inl:
  "PatchAdvModel E b = Inl e \<Longrightarrow> e = ValidationError \<or> e = TypeError"
  by (cases b) (auto split: option.splits)

text \<open>
  Claim C2, as amended. A body that the validation model of the operation rejects makes
  the handler raise the error of the model: pydantic's \<^verbatim>\<open>ValidationError\<close> (or
  \<^verbatim>\<open>TypeError\<close> when the body is not a JSON object). No handler catches it and it is
  not an \<^verbatim>\<open>ApiError\<close>, so the request ends with status 500, and nothing stored changes.
\<close>

theorem invalid_body_uncaught:
  "(CreateUserModel E (json_body req) = Inl e \<longrightarrow>
      UserView_post E req d = (Inl e, d) \<and> (e = ValidationError \<or> e = TypeError) \<and>
      http_status (Inl e) = Some 500 \<and> http_body (Inl e) = None) \<and>
   (CreateAdvModel E (json_body req) = Inl e \<longrightarrow>
      AdvView_post E now req d = (Inl e, d) \<and> (e = ValidationError \<or> e = TypeError) \<and>
      http_status (Inl e) = Some 500 \<and> http_body (Inl e) = None) \<and>
   (path_int E req ''user_id'' = Inr k \<and> PatchUserModel E (json_body req) = Inl e \<longrightarrow>
      UserView_patch E req d = (Inl e, d) \<and> (e = ValidationError \<or> e = TypeError) \<and>
      http_status (Inl e) = Some 500 \<and> http_body (Inl e) = None) \<and>
   (path_int E req ''adv_id'' = Inr k \<and> PatchAdvModel E (json_body req) = Inl e \<longrightarrow>
      AdvView_patch E req d = (Inl e, d) \<and> (e = ValidationError \<or> e = TypeError) \<and>
      http_status (Inl e) = Some 500 \<and> http_body (Inl e) = None)"
  using CreateUserModel_Inl[of E "json_body req" e] CreateAdvModel_Inl[of E "json_body req" e]
    PatchUserModel_Inl[of E "json_body req" e] PatchAdvModel_Inl[of E "json_body req" e]
  by (auto simp: UserView_post_def AdvView_post_def UserView_patch_def AdvView_patch_def)

theorem invalid_body_uncaught_witness:
  "CreateUserModel default_env (json_body (request_of [(''user_id'', ''1''), (''adv_id'', ''1'')] (JObj [(''username'', JArr [])])))
     = Inl ValidationError \<and>
   PatchUserModel default_env (json_body (request_of [(''user_id'', ''1''), (''adv_id'', ''1'')] (JObj [(''username'', JArr [])])))
     = Inl ValidationError \<and>
   path_int default_env (request_of [(''user_id'', ''1''), (''adv_id'', ''1'')] (JObj [(''username'', JArr [])])) ''user_id'' = Inr 1 \<and>
   UserView_post default_env (request_of [(''user_id'', ''1''), (''adv_id'', ''1'')] (JObj [(''username'', JArr [])])) db_sample
     = (Inl ValidationError, db_sample) \<and>
   UserView_patch default_env (request_of [(''user_id'', ''1''), (''adv_id'', ''1'')] (JObj [(''username'', JArr [])])) db_sample
     = (Inl ValidationError, db_sample) \<and>
   http_status (Inl ValidationError) = Some 500"
proof -
  let ?r = "request_of [(''user_id'', ''1''), (''adv_id'', ''1'')] (JObj [(''username'', JArr [])])"
  have c: "CreateUserModel default_env (json_body ?r) = Inl ValidationError"
    by (simp add: request_of_def default_env_def required_def)
  have p: "PatchUserModel default_env (json_body ?r) = Inl ValidationError"
    by (simp add: request_of_def default_env_def optional_def)
  have k: "path_int default_env ?r ''user_id'' = Inr 1" by (rule path_int_1)
  note t = invalid_body_uncaught[where E = default_env and req = ?r and e = ValidationError
      and d = db_sample and k = 1]
  show ?thesis using t c p k by blast
qed

text \<open>
  A create body without the required \<^verbatim>\<open>password\<close> does not end in status 400.
\<close>

theorem missing_field_counterexample:
  "CreateUserModel default_env (JObj [(''username'', JStr ''carol'')]) = Inl ValidationError \<and>
   fst (UserView_post default_env (request_of [] (JObj [(''username'', JStr ''carol'')])) db_sample)
     = Inl ValidationError \<and>
   http_status (fst (UserView_post default_env
      (request_of [] (JObj [(''username'', JStr ''carol'')])) db_sample)) = Some 500"
  by (simp add: request_of_def default_env_def required_def UserView_post_def)

subsection \<open>C4: what a patch of an advertisement overwrites\<close>












subsection \<open>C9: a patch without fields\<close>






subsection \<open>C5: create, then read\<close>

lemma find_append_new:
  assumes "k \<notin> set (map f xs)" and "f y = k"
  shows "find (\<lambda>x. f x = k) (xs @ [y]) = Some y"
  using assms by (induction xs) auto

lemma insert_user_Inr:
  assumes "insert_user un pw d = (Inr k, d')"
  shows "get_user k d' = Inr \<lparr>u_id = k, u_username = take 60 un, u_password = pw\<rparr>"
proof -
  let ?row = "\<lparr>u_id = k, u_username = take 60 un, u_password = pw\<rparr>"
  from assms obtain stored where st: "varchar 60 un = Some stored"
    and k: "int32 k" and fresh: "k \<notin> set (map u_id (users d))"
    and d': "users d' = users d @ [\<lparr>u_id = k, u_username = stored, u_password = pw\<rparr>]"
    by (auto simp: insert_user_def Let_def split: if_splits option.splits)
  have "users d' = users d @ [?row]" using d' varchar_Some(1)[OF st] by simp
  then show ?thesis
    using find_append_new[of k u_id "users d" ?row] fresh k by (simp add: get_user_def)
qed

lemma insert_adv_Inr:
  assumes "insert_adv now t ds uid d = (Inr k, d')"
  shows "get_adv k d' = Inr \<lparr>a_id = k, a_title = t, a_description = ds,
           a_creation_time = now, a_user_id = Some uid\<rparr>"
proof -
  let ?row = "\<lparr>a_id = k, a_title = t, a_description = ds, a_creation_time = now,
               a_user_id = Some uid\<rparr>"
  from assms have k: "int32 k" and fresh: "k \<notin> set (map a_id (advertisements d))"
    and d': "advertisements d' = advertisements d @ [?row]"
    by (auto simp: insert_adv_def Let_def split: if_splits)
  show ?thesis
    using find_append_new[of k a_id "advertisements d" ?row] fresh k
    by (simp add: get_adv_def d')
qed

lemma UserView_post_Inr:
  assumes "UserView_post E req d = (Inr r, d')"
  shows "\<exists>p k. CreateUserModel E (json_body req) = Inr p \<and>
           insert_user (cu_username p) (cu_password p) d = (Inr k, d') \<and>
           r = Dict (JObj [(''id'', JInt k)])"
  using assms
  by (auto simp: UserView_post_def split: sum.splits prod.splits if_splits)

lemma AdvView_post_Inr:
  assumes "AdvView_post E now req d = (Inr r, d')"
  shows "\<exists>q k. CreateAdvModel E (json_body req) = Inr q \<and>
           insert_adv now (ca_title q) (ca_description q) (ca_user_id q) d = (Inr k, d') \<and>
           r = Dict (JObj [(''id'', JInt k)])"
  using assms
  by (auto simp: AdvView_post_def split: sum.splits prod.splits if_splits)

lemma CreateUserModel_username:
  assumes "CreateUserModel E (JObj kwargs) = Inr p" and "map_of kwargs ''username'' = Some v"
  shows "str_validator E v = Some (cu_username p)"
  using assms by (auto simp: required_def split: option.splits)

lemma CreateAdvModel_fields:
  assumes "CreateAdvModel E (JObj kwargs) = Inr q"
    and "map_of kwargs ''title'' = Some v1" and "map_of kwargs ''description'' = Some v2"
    and "map_of kwargs ''user_id'' = Some v3"
  shows "str_validator E v1 = Some (ca_title q) \<and> str_validator E v2 = Some (ca_description q) \<and>
         int_validator E v3 = Some (ca_user_id q)"
  using assms by (auto simp: required_def split: option.splits)

text \<open>
  Claim C5, as amended. When a create returns an identity, a read of that identity in
  the database the create left returns status 200 with, for each field a read shows, the
  value the validation model made of the submitted one: for an advertisement
  \<^verbatim>\<open>title\<close>, \<^verbatim>\<open>description\<close> and \<^verbatim>\<open>user_id\<close>, next to the date of creation; for a user the
  \<^verbatim>\<open>username\<close>, next to \<^verbatim>\<open>id_user\<close>, and of a username longer than 60 characters its
  first 60 (the storage engine keeps no more).
\<close>

theorem create_then_read_round_trip:
  "(UserView_post E req d = (Inr (Dict (JObj [(''id'', JInt k)])), d') \<and>
    json_body req = JObj kwargs \<and> map_of kwargs ''username'' = Some v \<and>
    path_int E req' ''user_id'' = Inr k \<longrightarrow>
      (\<exists>un. str_validator E v = Some un \<and>
         UserView_get E req' d' =
           (Inr (Response 200 (JObj [(''id_user'', JInt k), (''username'', JStr (take 60 un))])),
            d'))) \<and>
   (AdvView_post E now req d = (Inr (Dict (JObj [(''id'', JInt k)])), d') \<and>
    json_body req = JObj kwargs \<and>
    map_of kwargs ''title'' = Some v1 \<and> map_of kwargs ''description'' = Some v2 \<and>
    map_of kwargs ''user_id'' = Some v3 \<and> path_int E req' ''adv_id'' = Inr k \<longrightarrow>
      (\<exists>t ds uid. str_validator E v1 = Some t \<and> str_validator E v2 = Some ds \<and>
         int_validator E v3 = Some uid \<and>
         AdvView_get E req' d' =
           (Inr (Response 200
              (JObj [(''title'', JStr t), (''description'', JStr ds), (''date'', JStr now),
                     (''user_id'', JInt uid)])), d')))"
proof -
  have "\<exists>un. str_validator E v = Some un \<and>
         UserView_get E req' d' =
           (Inr (Response 200 (JObj [(''id_user'', JInt k), (''username'', JStr (take 60 un))])),
            d')"
    if h: "UserView_post E req d = (Inr (Dict (JObj [(''id'', JInt k)])), d')"
      "json_body req = JObj kwargs" "map_of kwargs ''username'' = Some v"
      "path_int E req' ''user_id'' = Inr k"
  proof -
    from UserView_post_Inr[OF h(1)] obtain p k' where
      p: "CreateUserModel E (json_body req) = Inr p"
      and i: "insert_user (cu_username p) (cu_password p) d = (Inr k', d')"
      and k': "Dict (JObj [(''id'', JInt k)]) = Dict (JObj [(''id'', JInt k')])" by blast
    from k' have kk: "k' = k" by simp
    have v: "str_validator E v = Some (cu_username p)"
      using CreateUserModel_username[OF p[unfolded h(2)] h(3)] .
    have "get_user k d' =
        Inr \<lparr>u_id = k, u_username = take 60 (cu_username p), u_password = cu_password p\<rparr>"
      using insert_user_Inr[OF i] kk by simp
    then have "UserView_get E req' d' =
           (Inr (Response 200
              (JObj [(''id_user'', JInt k), (''username'', JStr (take 60 (cu_username p)))])), d')"
      using h(4) by (simp add: UserView_get_def json_response_def)
    with v show ?thesis by blast
  qed
  moreover
  have "\<exists>t ds uid. str_validator E v1 = Some t \<and> str_validator E v2 = Some ds \<and>
         int_validator E v3 = Some uid \<and>
         AdvView_get E req' d' =
           (Inr (Response 200
              (JObj [(''title'', JStr t), (''description'', JStr ds), (''date'', JStr now),
                     (''user_id'', JInt uid)])), d')"
    if h: "AdvView_post E now req d = (Inr (Dict (JObj [(''id'', JInt k)])), d')"
      "json_body req = JObj kwargs"
      "map_of kwargs ''title'' = Some v1" "map_of kwargs ''description'' = Some v2"
      "map_of kwargs ''user_id'' = Some v3" "path_int E req' ''adv_id'' = Inr k"
  proof -
    from AdvView_post_Inr[OF h(1)] obtain q k' where
      q: "CreateAdvModel E (json_body req) = Inr q"
      and i: "insert_adv now (ca_title q) (ca_description q) (ca_user_id q) d = (Inr k', d')"
      and k': "Dict (JObj [(''id'', JInt k)]) = Dict (JObj [(''id'', JInt k')])" by blast
    from k' have kk: "k' = k" by simp
    note f = CreateAdvModel_fields[OF q[unfolded h(2)] h(3,4,5)]
    have "get_adv k d' = Inr \<lparr>a_id = k, a_title = ca_title q, a_description = ca_description q,
           a_creation_time = now, a_user_id = Some (ca_user_id q)\<rparr>"
      using insert_adv_Inr[OF i] kk by simp
    then have "AdvView_get E req' d' =
           (Inr (Response 200
              (JObj [(''title'', JStr (ca_title q)), (''description'', JStr (ca_description q)),
                     (''date'', JStr now), (''user_id'', JInt (ca_user_id q))])), d')"
      using h(6) by (simp add: AdvView_get_def json_response_def)
    with f show ?thesis by blast
  qed
  ultimately show ?thesis by blast
qed

theorem create_then_read_round_trip_witness:
  "UserView_post default_env (request_of [] alice_payload) empty_db =
     (Inr (Dict (JObj [(''id'', JInt 1)])),
      \<lparr>users = [alice], advertisements = [], users_id_seq = 2, advertisements_id_seq = 1\<rparr>) \<and>
   json_body (request_of [] alice_payload)
     = JObj [(''username'', JStr ''alice''), (''password'', JStr ''pw1'')] \<and>
   str_validator default_env (JStr ''alice'') = Some ''alice'' \<and>
   path_int default_env (request_of [(''user_id'', ''1''), (''adv_id'', ''1'')] JNull) ''user_id''
     = Inr 1 \<and>
   UserView_get default_env (request_of [(''user_id'', ''1''), (''adv_id'', ''1'')] JNull)
     \<lparr>users = [alice], advertisements = [], users_id_seq = 2, advertisements_id_seq = 1\<rparr> =
     (Inr (Response 200 (JObj [(''id_user'', JInt 1), (''username'', JStr ''alice'')])),
      \<lparr>users = [alice], advertisements = [], users_id_seq = 2, advertisements_id_seq = 1\<rparr>) \<and>
   fst (AdvView_post default_env ''2023-01-02T00:00:00'' (request_of [] bike_payload) db_sample)
     = Inr (Dict (JObj [(''id'', JInt 2)])) \<and>
   path_int default_env (request_of [(''adv_id'', ''2'')] JNull) ''adv_id'' = Inr 2 \<and>
   fst (AdvView_get default_env (request_of [(''adv_id'', ''2'')] JNull)
     (snd (AdvView_post default_env ''2023-01-02T00:00:00'' (request_of [] bike_payload) db_sample)))
     = Inr (Response 200
         (JObj [(''title'', JStr ''bike''), (''description'', JStr ''red''),
                (''date'', JStr ''2023-01-02T00:00:00''), (''user_id'', JInt 1)]))"
proof -
  let ?d = "\<lparr>users = [alice], advertisements = [], users_id_seq = 2, advertisements_id_seq = 1\<rparr>"
  let ?r = "request_of [(''user_id'', ''1''), (''adv_id'', ''1'')] JNull"
  have c: "UserView_post default_env (request_of [] alice_payload) empty_db =
     (Inr (Dict (JObj [(''id'', JInt 1)])), ?d)"
    by (simp add: UserView_post_def request_of_def alice_payload_def default_env_def required_def
        insert_user_def empty_db_def alice_def no_nul_def int32_def varchar_def)
  have b: "json_body (request_of [] alice_payload)
     = JObj [(''username'', JStr ''alice''), (''password'', JStr ''pw1'')]"
    by (simp add: request_of_def alice_payload_def)
  have m: "map_of [(''username'', JStr ''alice''), (''password'', JStr ''pw1'')] ''username''
     = Some (JStr ''alice'')" by simp
  have v: "str_validator default_env (JStr ''alice'') = Some ''alice''"
    by (simp add: default_env_def)
  have k: "path_int default_env ?r ''user_id'' = Inr 1" by (rule path_int_1)
  have "\<exists>un. str_validator default_env (JStr ''alice'') = Some un \<and>
     UserView_get default_env ?r ?d =
     (Inr (Response 200 (JObj [(''id_user'', JInt 1), (''username'', JStr (take 60 un))])), ?d)"
    using create_then_read_round_trip[where E = default_env and req = "request_of [] alice_payload"
        and d = empty_db and k = 1 and d' = ?d and v = "JStr ''alice''" and req' = ?r
        and kwargs = "[(''username'', JStr ''alice''), (''password'', JStr ''pw1'')]"]
      c b m k
    by blast
  then have g: "UserView_get default_env ?r ?d =
     (Inr (Response 200 (JObj [(''id_user'', JInt 1), (''username'', JStr ''alice'')])), ?d)"
    using v by auto
  let ?now = "''2023-01-02T00:00:00''"
  let ?pa = "AdvView_post default_env ?now (request_of [] bike_payload) db_sample"
  let ?kw = "[(''title'', JStr ''bike''), (''description'', JStr ''red''), (''user_id'', JInt 1)]"
  have ca: "fst ?pa = Inr (Dict (JObj [(''id'', JInt 2)]))"
    by (simp add: AdvView_post_def request_of_def bike_payload_def default_env_def required_def
        insert_adv_def db_sample_def alice_def bike_def no_nul_def int32_def)
  then have ca': "?pa = (Inr (Dict (JObj [(''id'', JInt 2)])), snd ?pa)"
    by (metis prod.collapse)
  have ba: "json_body (request_of [] bike_payload) = JObj ?kw"
    by (simp add: request_of_def bike_payload_def)
  have ma: "map_of ?kw ''title'' = Some (JStr ''bike'')"
    "map_of ?kw ''description'' = Some (JStr ''red'')" "map_of ?kw ''user_id'' = Some (JInt 1)"
    by simp_all
  have va: "str_validator default_env (JStr ''bike'') = Some ''bike''"
    "str_validator default_env (JStr ''red'') = Some ''red''"
    "int_validator default_env (JInt 1) = Some 1"
    by (simp_all add: default_env_def)
  have ka: "path_int default_env (request_of [(''adv_id'', ''2'')] JNull) ''adv_id'' = Inr 2"
    by (simp add: eval_defs)
  have "\<exists>t ds uid. str_validator default_env (JStr ''bike'') = Some t \<and>
      str_validator default_env (JStr ''red'') = Some ds \<and>
      int_validator default_env (JInt 1) = Some uid \<and>
      AdvView_get default_env (request_of [(''adv_id'', ''2'')] JNull) (snd ?pa)
     = (Inr (Response 200
         (JObj [(''title'', JStr t), (''description'', JStr ds),
                (''date'', JStr ?now), (''user_id'', JInt uid)])), snd ?pa)"
    using create_then_read_round_trip[where E = default_env and req = "request_of [] bike_payload"
        and d = db_sample and k = 2 and d' = "snd ?pa" and now = ?now and kwargs = ?kw
        and ?v1.0 = "JStr ''bike''" and ?v2.0 = "JStr ''red''" and ?v3.0 = "JInt 1"
        and req' = "request_of [(''adv_id'', ''2'')] JNull"]
      ca' ba ma ka
    by blast
  then have ga': "fst (AdvView_get default_env (request_of [(''adv_id'', ''2'')] JNull) (snd ?pa))
     = Inr (Response 200
         (JObj [(''title'', JStr ''bike''), (''description'', JStr ''red''),
                (''date'', JStr ?now), (''user_id'', JInt 1)]))"
    using va by auto
  show ?thesis using c b v k g ca ka ga' by blast
qed

text \<open>
  What is read back is not always what was submitted: a username of 60 letters and a
  space is accepted, the create returns the identity 1, and the read of 1 returns the 60
  letters without the space.
\<close>

theorem username_cut_counterexample:
  "UserView_post default_env
     (request_of [] (JObj [(''username'', JStr (replicate 60 CHR ''a'' @ '' '')),
                          (''password'', JStr ''pw1'')])) empty_db =
     (Inr (Dict (JObj [(''id'', JInt 1)])),
      \<lparr>users = [\<lparr>u_id = 1, u_username = replicate 60 CHR ''a'', u_password = ''pw1''\<rparr>],
       advertisements = [], users_id_seq = 2, advertisements_id_seq = 1\<rparr>) \<and>
   UserView_get default_env (request_of [(''user_id'', ''1'')] JNull)
     \<lparr>users = [\<lparr>u_id = 1, u_username = replicate 60 CHR ''a'', u_password = ''pw1''\<rparr>],
      advertisements = [], users_id_seq = 2, advertisements_id_seq = 1\<rparr> =
     (Inr (Response 200
        (JObj [(''id_user'', JInt 1), (''username'', JStr (replicate 60 CHR ''a''))])),
      \<lparr>users = [\<lparr>u_id = 1, u_username = replicate 60 CHR ''a'', u_password = ''pw1''\<rparr>],
       advertisements = [], users_id_seq = 2, advertisements_id_seq = 1\<rparr>) \<and>
   JStr (replicate 60 CHR ''a'') \<noteq> JStr (replicate 60 CHR ''a'' @ '' '')"
proof -
  let ?un = "replicate 60 CHR ''a'' @ '' ''"
  have n: "no_nul ?un" "no_nul ''pw1''" by (simp_all add: no_nul_def list_all_iff)
  have v: "varchar 60 ?un = Some (replicate 60 CHR ''a'')" by (simp add: varchar_def)
  have i: "insert_user ?un ''pw1'' empty_db =
     (Inr 1,
      \<lparr>users = [\<lparr>u_id = 1, u_username = replicate 60 CHR ''a'', u_password = ''pw1''\<rparr>],
       advertisements = [], users_id_seq = 2, advertisements_id_seq = 1\<rparr>)"
    using n v by (simp add: insert_user_def Let_def empty_db_def int32_def)
  have 1: "UserView_post default_env
     (request_of [] (JObj [(''username'', JStr ?un), (''password'', JStr ''pw1'')])) empty_db =
     (Inr (Dict (JObj [(''id'', JInt 1)])),
      \<lparr>users = [\<lparr>u_id = 1, u_username = replicate 60 CHR ''a'', u_password = ''pw1''\<rparr>],
       advertisements = [], users_id_seq = 2, advertisements_id_seq = 1\<rparr>)"
    using i by (simp add: UserView_post_def request_of_def default_env_def required_def)
  have k: "path_int default_env (request_of [(''user_id'', ''1'')] JNull) ''user_id'' = Inr 1"
    by (simp add: eval_defs)
  have 2: "UserView_get default_env (request_of [(''user_id'', ''1'')] JNull)
     \<lparr>users = [\<lparr>u_id = 1, u_username = replicate 60 CHR ''a'', u_password = ''pw1''\<rparr>],
      advertisements = [], users_id_seq = 2, advertisements_id_seq = 1\<rparr> =
     (Inr (Response 200
        (JObj [(''id_user'', JInt 1), (''username'', JStr (replicate 60 CHR ''a''))])),
      \<lparr>users = [\<lparr>u_id = 1, u_username = replicate 60 CHR ''a'', u_password = ''pw1''\<rparr>],
       advertisements = [], users_id_seq = 2, advertisements_id_seq = 1\<rparr>)"
    using k by (simp add: UserView_get_def get_user_def json_response_def int32_def)
  have 3: "JStr (replicate 60 CHR ''a'') \<noteq> JStr ?un" by simp
  show ?thesis using 1 2 3 by blast
qed

subsection \<open>C8: reads do not depend on passwords\<close>

lemma find_blank_user:
  "find (\<lambda>u. u_id u = k) (map (\<lambda>u. u\<lparr>u_password := []\<rparr>) xs) =
   map_option (\<lambda>u. u\<lparr>u_password := []\<rparr>) (find (\<lambda>u. u_id u = k) xs)"
  by (induction xs) auto

lemma UserView_get_blank:
  "fst (UserView_get E req (without_passwords d)) = fst (UserView_get E req d)"
  by (simp add: UserView_get_def get_user_def without_passwords_def find_blank_user
      split: sum.splits option.splits)

lemma AdvView_get_blank:
  "fst (AdvView_get E req (without_passwords d)) = fst (AdvView_get E req d)"
  by (simp add: AdvView_get_def get_adv_def without_passwords_def split: sum.splits option.splits)

text \<open>
  Claim C8. The body of a successful user read is \<^verbatim>\<open>{id_user, username}\<close> and nothing
  else, and what a read returns or raises, for a user or for an advertisement, is the same
  in any two databases that differ only in the passwords stored.
\<close>

theorem reads_independent_of_passwords:
  "(without_passwords d1 = without_passwords d2 \<longrightarrow>
      fst (UserView_get E req d1) = fst (UserView_get E req d2) \<and>
      fst (AdvView_get E req d1) = fst (AdvView_get E req d2)) \<and>
   (path_int E req ''user_id'' = Inr k \<and> get_user k d = Inr u \<longrightarrow>
      fst (UserView_get E req d) =
        Inr (Response 200 (JObj [(''id_user'', JInt k), (''username'', JStr (u_username u))])))"
proof -
  have "fst (UserView_get E req d1) = fst (UserView_get E req d2)"
    and "fst (AdvView_get E req d1) = fst (AdvView_get E req d2)"
    if "without_passwords d1 = without_passwords d2"
    using that UserView_get_blank[of E req d1] UserView_get_blank[of E req d2]
      AdvView_get_blank[of E req d1] AdvView_get_blank[of E req d2]
    by simp_all
  moreover have "fst (UserView_get E req d) =
        Inr (Response 200 (JObj [(''id_user'', JInt k), (''username'', JStr (u_username u))]))"
    if "path_int E req ''user_id'' = Inr k" and "get_user k d = Inr u"
    using that get_user_Inr[OF that(2)] by (simp add: UserView_get_def json_response_def)
  ultimately show ?thesis by blast
qed

theorem reads_independent_of_passwords_witness:
  "without_passwords db_sample = without_passwords (db_sample\<lparr>users := [alice\<lparr>u_password := ''other''\<rparr>]\<rparr>) \<and>
   path_int default_env (request_of [(''user_id'', ''1''), (''adv_id'', ''1'')] JNull) ''user_id''
     = Inr 1 \<and>
   get_user 1 (db_sample\<lparr>users := [alice\<lparr>u_password := ''other''\<rparr>]\<rparr>)
     = Inr (alice\<lparr>u_password := ''other''\<rparr>) \<and>
   fst (UserView_get default_env (request_of [(''user_id'', ''1''), (''adv_id'', ''1'')] JNull) db_sample) =
     Inr (Response 200 (JObj [(''id_user'', JInt 1), (''username'', JStr ''alice'')])) \<and>
   fst (UserView_get default_env (request_of [(''user_id'', ''1''), (''adv_id'', ''1'')] JNull)
          (db_sample\<lparr>users := [alice\<lparr>u_password := ''other''\<rparr>]\<rparr>)) =
     Inr (Response 200 (JObj [(''id_user'', JInt 1), (''username'', JStr ''alice'')]))"
proof -
  let ?d2 = "db_sample\<lparr>users := [alice\<lparr>u_password := ''other''\<rparr>]\<rparr>"
  let ?r = "request_of [(''user_id'', ''1''), (''adv_id'', ''1'')] JNull"
  have e: "without_passwords db_sample = without_passwords ?d2"
    by (simp add: without_passwords_def db_sample_def)
  have k: "path_int default_env ?r ''user_id'' = Inr 1" by (rule path_int_1)
  have g: "get_user 1 ?d2 = Inr (alice\<lparr>u_password := ''other''\<rparr>)"
    by (simp add: get_user_def alice_def int32_def)
  have n: "u_username (alice\<lparr>u_password := ''other''\<rparr>) = ''alice''" by (simp add: alice_def)
  note t = reads_independent_of_passwords[where ?d1.0 = db_sample and ?d2.0 = ?d2
      and E = default_env and req = ?r and k = 1 and d = ?d2 and u = "alice\<lparr>u_password := ''other''\<rparr>"]
  have 2: "fst (UserView_get default_env ?r ?d2) =
     Inr (Response 200 (JObj [(''id_user'', JInt 1), (''username'', JStr ''alice'')]))"
    using t k g n by simp
  have 1: "fst (UserView_get default_env ?r db_sample) =
     Inr (Response 200 (JObj [(''id_user'', JInt 1), (''username'', JStr ''alice'')]))"
    using t e 2 by simp
  show ?thesis using e k g 1 2 by blast
qed

end
